theory Spec2Isabelle
  imports Complex_Main "HOL-Library.Multiset"
begin

section \<open>Data model\<close>

text \<open>
  The program is \<^verbatim>\<open>rocket_learn/rollout_generators/redis_rolloutgenerator.py\<close>: a
  learner-side \<^verbatim>\<open>RedisRolloutGenerator\<close> and a \<^verbatim>\<open>RedisRolloutWorker\<close> that talk through
  six Redis keys. Every exception the Python can raise is a value of \<open>error\<close>.
  \<^item> \<open>TypeError\<close>: \<^verbatim>\<open>pickle.loads(None)\<close> (a Redis read that found nothing) and \<^verbatim>\<open>int(None)\<close>;
  \<^item> \<open>KeyError\<close>: \<^verbatim>\<open>del versions[0]\<close> on a dict without the key \<open>0\<close>;
  \<^item> \<open>ValueError\<close>: tuple unpacking of the wrong length, \<^verbatim>\<open>np.random.choice\<close> over nothing;
  \<^item> \<open>RateError\<close>: whatever \<^verbatim>\<open>trueskill.rate\<close> raises on groups it refuses;
  \<^item> \<open>AttributeError\<close>: \<^verbatim>\<open>self.logger.log\<close> when the logger is \<^verbatim>\<open>None\<close>;
  \<^item> \<open>ZeroDivisionError\<close>: \<^verbatim>\<open>%\<close> or \<^verbatim>\<open>/\<close> by zero;
  \<^item> \<open>ResponseError\<close>: Redis \<^verbatim>\<open>LSET\<close> on an index out of range.
\<close>

datatype error =
  TypeError | KeyError | ValueError | RateError | AttributeError | ZeroDivisionError |
  ResponseError

text \<open>
  A trueskill \<^verbatim>\<open>Rating\<close> is a mean and an uncertainty. \<^verbatim>\<open>Rating(m)\<close> with one argument
  takes the library's default uncertainty, 25/3.
\<close>

record rating =
  mu :: real
  sigma :: real

definition Rating :: "real \<Rightarrow> real \<Rightarrow> rating" where
  "Rating m s = \<lparr>mu = m, sigma = s\<rparr>"

definition Rating_default_sigma :: "real \<Rightarrow> rating" where
  "Rating_default_sigma m = Rating m (25 / 3)"

text \<open>
  A version is a value of the update counter \<^verbatim>\<open>n_updates\<close> or an index drawn by
  \<^verbatim>\<open>np.random.choice\<close>: a natural number. The tuple a worker pushes,
  \<^verbatim>\<open>(rollout_data, uuid, name, result)\<close>, is a record; a trajectory (an
  \<^verbatim>\<open>ExperienceBuffer\<close>) is opaque, the type parameter \<open>'t\<close>.
\<close>

record 't submission =
  rollout_data :: "('t \<times> nat) list"
  sub_uuid :: string
  sub_name :: string
  sub_result :: int

text \<open>
  The Redis server, one field for each key of \<^verbatim>\<open>_ALL\<close>. A Redis list that does not exist
  reads as the empty list, so a list key is a list; a string key that does not exist reads as
  \<^verbatim>\<open>None\<close>. Pickled values are kept unpickled (serialization is a round trip); a model blob
  is a byte string.
\<close>

record 't store =
  qualities :: "rating list"
  model_latest :: "string option"
  rollouts :: "'t submission list"
  version_latest :: "nat option"
  opponent_models :: "string list"
  worker_ids :: "string list"

definition empty_store :: "'t store" where
  "empty_store = \<lparr>qualities = [], model_latest = None, rollouts = [], version_latest = None,
     opponent_models = [], worker_ids = []\<rparr>"

text \<open>
  \<^verbatim>\<open>LINDEX key i\<close> answers nil out of range, and \<^verbatim>\<open>LSET key i v\<close> is refused there.
\<close>

definition lindex :: "'a list \<Rightarrow> nat \<Rightarrow> 'a option" where
  "lindex xs i = (if i < length xs then Some (xs ! i) else None)"

definition lset :: "'a list \<Rightarrow> nat \<Rightarrow> 'a \<Rightarrow> 'a list option" where
  "lset xs i v = (if i < length xs then Some (xs[i := v]) else None)"

text \<open>\<^verbatim>\<open>_unserialize\<close> of what a read returned: \<^verbatim>\<open>pickle.loads(None)\<close> raises.\<close>

definition unserialize :: "'a option \<Rightarrow> error + 'a" where
  "unserialize v = (case v of None \<Rightarrow> Inl TypeError | Some x \<Rightarrow> Inr x)"

text \<open>Sequencing of statements that may raise.\<close>

fun bind_err :: "error + 'a \<Rightarrow> ('a \<Rightarrow> error + 'b) \<Rightarrow> error + 'b" where
  "bind_err (Inl e) f = Inl e"
| "bind_err (Inr x) f = f x"

section \<open>The skill rating call\<close>

text \<open>
  \<^verbatim>\<open>trueskill.rate\<close> is a library function: its numeric core is a parameter \<open>core\<close> of the
  model, given the rating groups and one rank for each group, and answering \<open>None\<close> where
  the library raises. What the library documents of its interface is written out: with no
  \<^verbatim>\<open>ranks\<close> argument the ranks are \<^verbatim>\<open>range(len(rating_groups))\<close>.
\<close>

type_synonym rate_core = "rating list list \<Rightarrow> int list \<Rightarrow> rating list list option"

definition rate :: "rate_core \<Rightarrow> rating list list \<Rightarrow> int list option \<Rightarrow> error + rating list list" where
  "rate core rating_groups ranks =
     (case core rating_groups
             (case ranks of None \<Rightarrow> map int [0..<length rating_groups] | Some rs \<Rightarrow> rs) of
        None \<Rightarrow> Inl RateError
      | Some new_groups \<Rightarrow> Inr new_groups)"

text \<open>The assignment \<^verbatim>\<open>a, b = xs\<close> raises unless \<open>xs\<close> has two elements.\<close>

fun unpack2 :: "'a list \<Rightarrow> error + ('a \<times> 'a)" where
  "unpack2 [a, b] = Inr (a, b)"
| "unpack2 _ = Inl ValueError"

text \<open>
  Lines 87 to 90 of \<^verbatim>\<open>generate_rollouts\<close>:
  \<^verbatim>\<open>
  if result >= 0:
      r1, r2 = rate((blue, orange), ranks=(0, result))
  else:
      r2, r1 = rate((orange, blue))
  \<close>
  The value is the pair \<open>(r1, r2)\<close>: the new ratings of blue, then of orange.
\<close>

definition update_ratings ::
  "rate_core \<Rightarrow> rating list \<Rightarrow> rating list \<Rightarrow> int \<Rightarrow> error + (rating list \<times> rating list)" where
  "update_ratings core blue orange result =
     (if result \<ge> 0 then
        bind_err (rate core [blue, orange] (Some [0, result])) unpack2
      else
        bind_err (bind_err (rate core [orange, blue] None) unpack2)
          (\<lambda>(r2, r1). Inr (r1, r2)))"

section \<open>The generator\<close>

text \<open>
  The fields of a \<^verbatim>\<open>RedisRolloutGenerator\<close> other than its connection; the store is passed
  beside it. \<^verbatim>\<open>logger\<close> is \<^verbatim>\<open>None\<close> by default.
\<close>

datatype logger = Logger

record generator =
  n_updates :: nat
  save_every :: int
  gen_logger :: "logger option"

text \<open>
  \<^verbatim>\<open>__init__\<close>: with \<^verbatim>\<open>clear\<close>, every key of \<^verbatim>\<open>_ALL\<close> that exists is deleted.
\<close>

definition generator_init ::
  "int \<Rightarrow> logger option \<Rightarrow> bool \<Rightarrow> 't store \<Rightarrow> generator \<times> 't store" where
  "generator_init every lg clear s =
     (\<lparr>n_updates = 0, save_every = every, gen_logger = lg\<rparr>,
      if clear then empty_store else s)"

text \<open>
  Lines 78 to 85, the loop over \<^verbatim>\<open>enumerate(rollout_data)\<close>: \<open>n\<close> is the loop index and
  the triple holds \<^verbatim>\<open>blue\<close>, \<^verbatim>\<open>orange\<close> and \<^verbatim>\<open>rollouts\<close>. The rating is read before
  anything is appended, and a version the list does not hold raises there.
\<close>

fun resolve_seats ::
  "rating list \<Rightarrow> nat \<Rightarrow> nat \<Rightarrow> nat \<Rightarrow> ('t \<times> nat) list \<Rightarrow>
   rating list \<times> rating list \<times> 't list \<Rightarrow> error + (rating list \<times> rating list \<times> 't list)" where
  "resolve_seats qs latest_version blue_players n [] acc = Inr acc"
| "resolve_seats qs latest_version blue_players n ((rollout, version) # rest) (blue, orange, rs) =
     bind_err (unserialize (lindex qs version))
       (\<lambda>rating.
          resolve_seats qs latest_version blue_players (Suc n) rest
            (if n < blue_players then blue @ [rating] else blue,
             if n < blue_players then orange else orange @ [rating],
             if version = latest_version then rs @ [rollout] else rs))"

text \<open>
  Lines 92 to 94: \<^verbatim>\<open>versions.setdefault(version, []).append(rating)\<close> over
  \<^verbatim>\<open>zip(r1 + r2, rollout_data)\<close>. The dict is an association list in insertion order, the
  order in which line 97 iterates over it.
\<close>

fun setdefault_append :: "(nat \<times> rating list) list \<Rightarrow> nat \<Rightarrow> rating \<Rightarrow> (nat \<times> rating list) list" where
  "setdefault_append [] version r = [(version, [r])]"
| "setdefault_append ((k, rs) # m) version r =
     (if k = version then (k, rs @ [r]) # m else (k, rs) # setdefault_append m version r)"

definition group_versions :: "rating list \<Rightarrow> ('t \<times> nat) list \<Rightarrow> (nat \<times> rating list) list" where
  "group_versions new_ratings data =
     foldl (\<lambda>versions (r, (rollout, version)). setdefault_append versions version r)
       [] (zip new_ratings data)"

text \<open>Line 96, \<^verbatim>\<open>del versions[0]\<close>: a dict without the key raises.\<close>

definition del_key :: "nat \<Rightarrow> (nat \<times> 'v) list \<Rightarrow> error + (nat \<times> 'v) list" where
  "del_key k m =
     (if k \<in> fst ` set m then Inr (filter (\<lambda>kv. fst kv \<noteq> k) m) else Inl KeyError)"

text \<open>
  Lines 97 to 100. Each \<^verbatim>\<open>lset\<close> is a command of its own: what was written before a
  refused one stays written, so the loop returns the list beside the error.
\<close>

definition avg_rating :: "rating list \<Rightarrow> rating" where
  "avg_rating ratings =
     Rating (sum_list (map mu ratings) / real (length ratings))
            (sum_list (map sigma ratings) / real (length ratings))"

fun write_back :: "(nat \<times> rating list) list \<Rightarrow> rating list \<Rightarrow> error option \<times> rating list" where
  "write_back [] qs = (None, qs)"
| "write_back ((version, ratings) # rest) qs =
     (if ratings = [] then (Some ZeroDivisionError, qs)
      else case lset qs version (avg_rating ratings) of
             None \<Rightarrow> (Some ResponseError, qs)
           | Some qs' \<Rightarrow> write_back rest qs')"

text \<open>
  The dict \<^verbatim>\<open>versions\<close> as it stands after line 96, for one dequeued submission read
  against the store \<open>s\<close>: the map the write-back loop iterates over, beside the list
  \<^verbatim>\<open>rollouts\<close>. Line 71 comes first: \<^verbatim>\<open>int(None)\<close> raises \<^verbatim>\<open>TypeError\<close> as
  \<^verbatim>\<open>pickle.loads(None)\<close> does. \<^verbatim>\<open>blue_players\<close> is \<^verbatim>\<open>sum(divmod(len(rollout_data), 2))\<close>.
\<close>

definition blue_players :: "'a list \<Rightarrow> nat" where
  "blue_players data = length data div 2 + length data mod 2"

definition writeback_map ::
  "rate_core \<Rightarrow> 't store \<Rightarrow> 't submission \<Rightarrow> error + ((nat \<times> rating list) list \<times> 't list)" where
  "writeback_map core s sub =
     bind_err (unserialize (version_latest s))
       (\<lambda>latest_version.
     bind_err (resolve_seats (qualities s) latest_version (blue_players (rollout_data sub)) 0
                (rollout_data sub) ([], [], []))
       (\<lambda>(blue, orange, rs).
     bind_err (update_ratings core blue orange (sub_result sub))
       (\<lambda>(r1, r2).
     bind_err (del_key 0 (group_versions (r1 @ r2) (rollout_data sub)))
       (\<lambda>versions. Inr (versions, rs)))))"

text \<open>
  One turn of the \<^verbatim>\<open>while True\<close> of \<^verbatim>\<open>generate_rollouts\<close>, after the submission was
  popped: either an exception, or the trajectories handed to \<^verbatim>\<open>yield from\<close>; beside it the
  store as the turn leaves it.
\<close>

definition process_submission ::
  "rate_core \<Rightarrow> 't store \<Rightarrow> 't submission \<Rightarrow> (error + 't list) \<times> 't store" where
  "process_submission core s sub =
     (case writeback_map core s sub of
        Inl e \<Rightarrow> (Inl e, s)
      | Inr (versions, rs) \<Rightarrow>
          (case write_back versions (qualities s) of
             (Some e, qs) \<Rightarrow> (Inl e, s\<lparr>qualities := qs\<rparr>)
           | (None, qs) \<Rightarrow> (Inr rs, s\<lparr>qualities := qs\<rparr>)))"

text \<open>
  The generator itself, run on the submissions the queue holds. \<^verbatim>\<open>blpop\<close> takes the head of
  the queue and blocks on an empty one; an exception ends the generator, and the submission
  it was raised for is not put back.
\<close>

datatype outcome = Blocked | Raised error

fun consume ::
  "rate_core \<Rightarrow> 't submission list \<Rightarrow> 't store \<Rightarrow> outcome \<times> 't list \<times> 't store" where
  "consume core [] s = (Blocked, [], s\<lparr>rollouts := []\<rparr>)"
| "consume core (sub # queue) s =
     (case process_submission core (s\<lparr>rollouts := queue\<rparr>) sub of
        (Inl e, s') \<Rightarrow> (Raised e, [], s')
      | (Inr ys, s') \<Rightarrow>
          (case consume core queue s' of (out, zs, s'') \<Rightarrow> (out, ys @ zs, s'')))"

definition generate_rollouts :: "rate_core \<Rightarrow> 't store \<Rightarrow> outcome \<times> 't list \<times> 't store" where
  "generate_rollouts core s = consume core (rollouts s) s"

text \<open>
  The argument of the logging call on lines 110 to 113,
  \<^verbatim>\<open>wandb.plot.line_series(np.arange(len(ratings)), [np.array(r.mu for r in ratings)], ...)\<close>:
  \<^verbatim>\<open>np.array\<close> of a generator expression is an array of no dimension holding the generator,
  and \<^verbatim>\<open>line_series\<close> iterates over it, which raises \<^verbatim>\<open>TypeError\<close> whatever the ratings are.
\<close>

definition line_series :: "rating list \<Rightarrow> error option" where
  "line_series ratings = Some TypeError"

text \<open>
  \<^verbatim>\<open>_add_opponent\<close>: the model is pushed first. With ratings already stored the logging call
  is evaluated before any rating is pushed: \<^verbatim>\<open>self.logger.log\<close> raises when the logger is
  \<^verbatim>\<open>None\<close>, and with a logger its argument is evaluated next.
\<close>

definition add_opponent :: "logger option \<Rightarrow> string \<Rightarrow> 't store \<Rightarrow> error option \<times> 't store" where
  "add_opponent lg agent s =
     (let s1 = s\<lparr>opponent_models := opponent_models s @ [agent]\<rparr>;
          ratings = qualities s1
      in if ratings \<noteq> [] then
           (case lg of
              None \<Rightarrow> (Some AttributeError, s1)
            | Some l \<Rightarrow>
                (case line_series ratings of
                   Some e \<Rightarrow> (Some e, s1)
                 | None \<Rightarrow>
                     (None, s1\<lparr>qualities :=
                        qualities s1 @ [Rating_default_sigma (mu (last ratings))]\<rparr>)))
         else (None, s1\<lparr>qualities := qualities s1 @ [Rating_default_sigma 0]\<rparr>))"

text \<open>
  \<^verbatim>\<open>update_parameters\<close>, given the pickled parameters. The counter is incremented on the
  last line only, so a call that raises leaves it as it was.
\<close>

definition update_parameters ::
  "generator \<Rightarrow> string \<Rightarrow> 't store \<Rightarrow> error option \<times> generator \<times> 't store" where
  "update_parameters g model_bytes s =
     (let s1 = s\<lparr>model_latest := Some model_bytes\<rparr>;
          s2 = s1\<lparr>version_latest := Some (n_updates g)\<rparr>
      in if save_every g = 0 then (Some ZeroDivisionError, g, s2)
         else if int (n_updates g) mod save_every g = 0 then
           (case add_opponent (gen_logger g) model_bytes s2 of
              (Some e, s3) \<Rightarrow> (Some e, g, s3)
            | (None, s3) \<Rightarrow> (None, g\<lparr>n_updates := n_updates g + 1\<rparr>, s3))
         else (None, g\<lparr>n_updates := n_updates g + 1\<rparr>, s2))"

text \<open>\<open>k\<close> calls in a row, each with the same parameters; the first exception stops the run.\<close>

fun update_many ::
  "nat \<Rightarrow> generator \<Rightarrow> string \<Rightarrow> 't store \<Rightarrow> error option \<times> generator \<times> 't store" where
  "update_many 0 g model_bytes s = (None, g, s)"
| "update_many (Suc k) g model_bytes s =
     (case update_parameters g model_bytes s of
        (Some e, g', s') \<Rightarrow> (Some e, g', s')
      | (None, g', s') \<Rightarrow> update_many k g' model_bytes s')"

section \<open>The worker\<close>

text \<open>
  The fields of a \<^verbatim>\<open>RedisRolloutWorker\<close> other than its connection, its match and its
  environment. \<^verbatim>\<open>n_agents\<close> is \<^verbatim>\<open>match.agents\<close>, the number of seats.
\<close>

record worker =
  w_name :: string
  current_agent :: string
  current_version_prob :: real
  w_uuid :: string
  n_agents :: nat

text \<open>
  \<^verbatim>\<open>__init__\<close>: the latest model is read and unpickled with no test for \<^verbatim>\<open>None\<close>, then the
  worker's uuid (drawn by \<^verbatim>\<open>uuid4\<close>, here an argument) is pushed to \<^verbatim>\<open>worker-ids\<close>.
\<close>

definition worker_init ::
  "string \<Rightarrow> nat \<Rightarrow> real \<Rightarrow> string \<Rightarrow> 't store \<Rightarrow> error + (worker \<times> 't store)" where
  "worker_init name agents prob uuid s =
     bind_err (unserialize (model_latest s))
       (\<lambda>agent.
          Inr (\<lparr>w_name = name, current_agent = agent, current_version_prob = prob,
                 w_uuid = uuid, n_agents = agents\<rparr>,
               s\<lparr>worker_ids := worker_ids s @ [uuid]\<rparr>))"

text \<open>
  Modelled from the spec: \<^verbatim>\<open>rocket_learn.utils.util.softmax\<close> is not among the sources. The
  spec has the index chosen "with probability proportional to a softmax over mu / log(10)":
  each entry is its exponential over the sum of the exponentials, in real arithmetic.
\<close>

definition softmax :: "real list \<Rightarrow> real list" where
  "softmax xs = map (\<lambda>x. exp x / sum_list (map exp xs)) xs"

text \<open>
  \<^verbatim>\<open>np.random.choice(n, p=probs)\<close> with \<open>n = len(probs)\<close>: numpy refuses \<open>n = 0\<close> with a
  \<^verbatim>\<open>ValueError\<close>; otherwise it normalises the cumulative sums of \<open>p\<close> by the last one
  and returns how many of them are at most one uniform sample \<open>u\<close> of [0, 1)
  (\<^verbatim>\<open>cdf.searchsorted(u, side='right')\<close>). The sample is an argument of the model.
\<close>

fun cumsum_from :: "real \<Rightarrow> real list \<Rightarrow> real list" where
  "cumsum_from a [] = []"
| "cumsum_from a (x # xs) = (a + x) # cumsum_from (a + x) xs"

definition random_choice :: "real list \<Rightarrow> real \<Rightarrow> error + nat" where
  "random_choice p u =
     (if p = [] then Inl ValueError
      else Inr (length (filter (\<lambda>c. c / last (cumsum_from 0 p) \<le> u) (cumsum_from 0 p))))"

text \<open>\<^verbatim>\<open>_get_opponent_index\<close>, reading the whole of \<^verbatim>\<open>qualities\<close>.\<close>

definition get_opponent_index :: "rating list \<Rightarrow> real \<Rightarrow> error + (nat \<times> real)" where
  "get_opponent_index qs u =
     (let probs = softmax (map (\<lambda>r. mu r / ln 10) qs)
      in bind_err (random_choice probs u) (\<lambda>index. Inr (index, probs ! index)))"

text \<open>Line 182, computed only when there is more than one seat.\<close>

definition adjusted_prob :: "real \<Rightarrow> nat \<Rightarrow> real" where
  "adjusted_prob p n = (p * real n - 1) / (real n - 1)"

text \<open>
  Lines 183 to 194, the loop over \<^verbatim>\<open>range(self.n_agents - 1)\<close>. Each turn draws \<open>u\<close> from
  \<^verbatim>\<open>np.random.random()\<close> and, when the seat is not the current model's, \<open>u'\<close> inside
  \<^verbatim>\<open>np.random.choice\<close>; the list holds one pair of draws for each turn. A seat is
  \<^verbatim>\<open>(agent, version, prob)\<close>.
\<close>

fun extra_seats ::
  "worker \<Rightarrow> 't store \<Rightarrow> nat \<Rightarrow> real \<Rightarrow> (real \<times> real) list \<Rightarrow> error + (string \<times> nat \<times> real) list" where
  "extra_seats w s latest_version adj [] = Inr []"
| "extra_seats w s latest_version adj ((u, u') # draws) =
     bind_err
       (if \<not> u < adj then
          bind_err (get_opponent_index (qualities s) u')
            (\<lambda>(index, prob).
               bind_err (unserialize (lindex (opponent_models s) index))
                 (\<lambda>selected_agent. Inr (selected_agent, index, prob)))
        else Inr (current_agent w, latest_version, current_version_prob w))
       (\<lambda>seat.
          bind_err (extra_seats w s latest_version adj draws)
            (\<lambda>seats. Inr (seat # seats)))"

text \<open>Lines 178 to 194: the list \<^verbatim>\<open>agents\<close> before it is shuffled.\<close>

definition select_agents ::
  "worker \<Rightarrow> 't store \<Rightarrow> nat \<Rightarrow> (nat \<Rightarrow> real \<times> real) \<Rightarrow> error + (string \<times> nat \<times> real) list" where
  "select_agents w s latest_version rnd =
     (let first = (current_agent w, latest_version, current_version_prob w)
      in if n_agents w > 1 then
           bind_err
             (extra_seats w s latest_version
                (adjusted_prob (current_version_prob w) (n_agents w))
                (map rnd [0..<n_agents w - 1]))
             (\<lambda>seats. Inr (first # seats))
         else Inr [first])"

text \<open>
  One turn of the \<^verbatim>\<open>while True\<close> of \<^verbatim>\<open>run\<close>. \<^verbatim>\<open>np.random.shuffle\<close> and
  \<^verbatim>\<open>util.generate_episode\<close> (the simulator) are parameters. A turn that finds no model
  sleeps and starts over; otherwise the turn ends by pushing one submission.
\<close>

datatype 't turn = Waiting | Failed error | Pushed worker "'t store"

definition run_turn ::
  "((string \<times> nat \<times> real) list \<Rightarrow> (string \<times> nat \<times> real) list) \<Rightarrow>
   (string list \<Rightarrow> 't list \<times> int) \<Rightarrow> (nat \<Rightarrow> real \<times> real) \<Rightarrow> worker \<Rightarrow> 't store \<Rightarrow> 't turn" where
  "run_turn shuffle generate_episode rnd w s =
     (case model_latest s of
        None \<Rightarrow> Waiting
      | Some model_bytes \<Rightarrow>
          (case unserialize (version_latest s) of
             Inl e \<Rightarrow> Failed e
           | Inr latest_version \<Rightarrow>
               (let w' = w\<lparr>current_agent := model_bytes\<rparr>
                in case select_agents w' s latest_version rnd of
                     Inl e \<Rightarrow> Failed e
                   | Inr agents0 \<Rightarrow>
                       (let agents = shuffle agents0;
                            (rs, result) = generate_episode (map fst agents);
                            data = map (\<lambda>(rollout, (agent, version, prob)). (rollout, version))
                                     (zip rs agents)
                        in Pushed w'
                             (s\<lparr>rollouts := rollouts s @
                                  [\<lparr>rollout_data = data, sub_uuid = w_uuid w',
                                    sub_name = w_name w', sub_result = result\<rparr>]\<rparr>)))))"

text \<open>
  The loop itself never ends; \<open>run\<close> runs a given number of turns of it with no other
  process writing to the store in between, and stops at the first exception, with the worker
  and the store as the failed turn found them.
\<close>

fun run ::
  "nat \<Rightarrow> ((string \<times> nat \<times> real) list \<Rightarrow> (string \<times> nat \<times> real) list) \<Rightarrow>
   (string list \<Rightarrow> 't list \<times> int) \<Rightarrow> (nat \<Rightarrow> real \<times> real) \<Rightarrow> worker \<Rightarrow> 't store \<Rightarrow>
   error option \<times> worker \<times> 't store" where
  "run 0 shuffle generate_episode rnd w s = (None, w, s)"
| "run (Suc k) shuffle generate_episode rnd w s =
     (case run_turn shuffle generate_episode rnd w s of
        Waiting \<Rightarrow> run k shuffle generate_episode rnd w s
      | Failed e \<Rightarrow> (Some e, w, s)
      | Pushed w' s' \<Rightarrow> run k shuffle generate_episode rnd w' s')"

section \<open>The distribution of the seats\<close>








section \<open>Notions the theorems are stated with\<close>

text \<open>
  Every record's version has an entry in the rating list; the stored ratings of the seats in
  submission order; and the new ratings of the seats that played a given version, read off
  the list \<^verbatim>\<open>r1 + r2\<close>.
\<close>

definition resolves :: "rating list \<Rightarrow> ('t \<times> nat) list \<Rightarrow> bool" where
  "resolves qs data = list_all (\<lambda>(rollout, version). version < length qs) data"

definition seat_ratings :: "rating list \<Rightarrow> ('t \<times> nat) list \<Rightarrow> rating list" where
  "seat_ratings qs data = map (\<lambda>(rollout, version). qs ! version) data"

definition current_rollouts :: "nat \<Rightarrow> ('t \<times> nat) list \<Rightarrow> 't list" where
  "current_rollouts latest_version data =
     map fst (filter (\<lambda>(rollout, version). version = latest_version) data)"

definition ratings_of_version :: "rating list \<Rightarrow> ('t \<times> nat) list \<Rightarrow> nat \<Rightarrow> rating list" where
  "ratings_of_version new_ratings data v =
     map fst (filter (\<lambda>(r, (rollout, version)). version = v) (zip new_ratings data))"

section \<open>Contracts of the rating library, and a stand-in for it\<close>

text \<open>
  Two facts the trueskill documentation gives of \<^verbatim>\<open>rate\<close>: a lower rank is a better one
  and equal ranks are a draw, nothing else of the ranks is used; and the result has one new
  rating for each rating given, group by group.
\<close>

definition rank_order_only :: "rate_core \<Rightarrow> bool" where
  "rank_order_only core =
     (\<forall>groups a b c d. (a < b \<longleftrightarrow> c < d) \<and> (a = b \<longleftrightarrow> c = d) \<longrightarrow>
        core groups [a, b] = core groups [c, d])"

definition keeps_shape :: "rate_core \<Rightarrow> bool" where
  "keeps_shape core =
     (\<forall>groups ranks out. core groups ranks = Some out \<longrightarrow> map length out = map length groups)"

text \<open>
  A stand-in for the numeric core, to run the model on concrete inputs: two non-empty
  groups with two ranks, the better-ranked group gaining one point of mean on each rating
  and the other losing one, a draw changing nothing; anything else is refused.
\<close>

definition gain :: "int \<Rightarrow> rating \<Rightarrow> rating" where
  "gain d r = Rating (mu r + real_of_int d) (sigma r)"

fun sample_core :: rate_core where
  "sample_core [g1, g2] [a, b] =
     (if g1 = [] \<or> g2 = [] then None
      else Some [map (gain (sgn (b - a))) g1, map (gain (sgn (a - b))) g2])"
| "sample_core groups ranks = None"



section \<open>Sample inputs\<close>

text \<open>
  A store with two rated versions, the latest being version 1, and three submissions of two
  seats with trajectories named by numbers: one with a seat of the latest version and a seat
  of version 0, one with both seats of the latest version, and one with a seat of a version
  that has no rating.
\<close>

definition sample_store :: "nat store" where
  "sample_store = \<lparr>qualities = [Rating 0 1, Rating 0 1], model_latest = Some ''m1'',
     rollouts = [], version_latest = Some 1, opponent_models = [''m0'', ''m1''],
     worker_ids = []\<rparr>"

definition sub_mixed :: "nat submission" where
  "sub_mixed = \<lparr>rollout_data = [(10, 1), (11, 0)], sub_uuid = ''u'', sub_name = ''w'',
     sub_result = 1\<rparr>"

definition sub_current :: "nat submission" where
  "sub_current = \<lparr>rollout_data = [(20, 1), (21, 1)], sub_uuid = ''u'', sub_name = ''w'',
     sub_result = 1\<rparr>"

definition sub_missing :: "nat submission" where
  "sub_missing = \<lparr>rollout_data = [(30, 1), (31, 2)], sub_uuid = ''u'', sub_name = ''w'',
     sub_result = 1\<rparr>"

text \<open>
  A worker with two seats, and the store as the first \<^verbatim>\<open>update_parameters\<close> leaves it
  between publishing the model and the version and pushing the first opponent.
\<close>

definition sample_worker :: worker where
  "sample_worker = \<lparr>w_name = ''w'', current_agent = ''m'', current_version_prob = 9 / 10,
     w_uuid = ''u'', n_agents = 2\<rparr>"

definition unrated_store :: "nat store" where
  "unrated_store = empty_store\<lparr>model_latest := Some ''m'', version_latest := Some 0\<rparr>"




section \<open>Publishing parameters and snapshots\<close>

lemma int_mod_10: "(int n mod 10 = 0) = (n mod 10 = 0)"
  by presburger

lemma add_opponent_lengths:
  "add_opponent lg agent s = (None, s') \<Longrightarrow>
   length (opponent_models s') = Suc (length (opponent_models s)) \<and>
   length (qualities s') = Suc (length (qualities s))"
  by (auto simp: add_opponent_def Let_def split: if_splits option.splits)

lemma update_parameters_between_snapshots:
  assumes "save_every g = 10" and "n_updates g mod 10 \<noteq> 0"
  shows "update_parameters g b s =
     (None, g\<lparr>n_updates := n_updates g + 1\<rparr>,
      s\<lparr>model_latest := Some b, version_latest := Some (n_updates g)\<rparr>)"
  using assms by (simp add: update_parameters_def Let_def int_mod_10)

lemma update_parameters_snapshot_pushed:
  assumes "save_every g = 10" and "n_updates g mod 10 = 0"
  shows "opponent_models (snd (snd (update_parameters g b s))) = opponent_models s @ [b]"
  using assms
  by (simp add: update_parameters_def add_opponent_def line_series_def Let_def int_mod_10
      split: option.splits)

lemma update_parameters_first_snapshot:
  assumes "save_every g = 10" and "n_updates g mod 10 = 0" and "qualities s = []"
  shows "update_parameters g b s =
     (None, g\<lparr>n_updates := n_updates g + 1\<rparr>,
      s\<lparr>model_latest := Some b, version_latest := Some (n_updates g),
        opponent_models := opponent_models s @ [b],
        qualities := [Rating_default_sigma 0]\<rparr>)"
  using assms by (simp add: update_parameters_def add_opponent_def Let_def int_mod_10)

text \<open>
  The second snapshot cannot be taken. The call made with the counter at 10 pushes the model
  and raises before it pushes a rating, \<^verbatim>\<open>AttributeError\<close> with the default
  \<^verbatim>\<open>logger=None\<close> and \<^verbatim>\<open>TypeError\<close> with a logger; it leaves the counter at 10, so the
  next call does the same again.
\<close>

lemma update_parameters_later_snapshot_raises:
  assumes "save_every g = 10" and "n_updates g mod 10 = 0" and "qualities s \<noteq> []"
  shows "update_parameters g b s =
     (Some (case gen_logger g of None \<Rightarrow> AttributeError | Some l \<Rightarrow> TypeError), g,
      s\<lparr>model_latest := Some b, version_latest := Some (n_updates g),
        opponent_models := opponent_models s @ [b]\<rparr>)"
  using assms
  by (simp add: update_parameters_def add_opponent_def line_series_def Let_def int_mod_10
      split: option.splits)

text \<open>The calls made while the counter runs from \<open>i\<close>, at least 1, up to 10.\<close>

lemma update_many_between_snapshots:
  assumes "save_every g = 10" and "0 < n_updates g" and "n_updates g + k \<le> 10"
  shows "\<exists>g' s'. update_many k g b s = (None, g', s') \<and>
      n_updates g' = n_updates g + k \<and> save_every g' = 10 \<and>
      opponent_models s' = opponent_models s \<and> qualities s' = qualities s"
  using assms
proof (induction k arbitrary: g s)
  case 0
  then show ?case by simp
next
  case (Suc k)
  let ?g1 = "g\<lparr>n_updates := n_updates g + 1\<rparr>"
  let ?s1 = "s\<lparr>model_latest := Some b, version_latest := Some (n_updates g)\<rparr>"
  from Suc.prems have "n_updates g mod 10 \<noteq> 0" by simp
  from update_parameters_between_snapshots [OF Suc.prems(1) this]
  have u: "update_parameters g b s = (None, ?g1, ?s1)" .
  have "save_every ?g1 = 10" and "0 < n_updates ?g1" and "n_updates ?g1 + k \<le> 10"
    using Suc.prems by simp_all
  from Suc.IH [OF this, of ?s1]
  obtain g' s' where r: "update_many k ?g1 b ?s1 = (None, g', s')"
    and n: "n_updates g' = n_updates ?g1 + k" and e: "save_every g' = 10"
    and o: "opponent_models s' = opponent_models ?s1" and q: "qualities s' = qualities ?s1"
    by blast
  have "update_many (Suc k) g b s = (None, g', s')"
    using u r by simp
  with n e o q show ?case by simp
qed

text \<open>
  C5, as the code has it. With \<^verbatim>\<open>save_every = 10\<close>, a call of \<^verbatim>\<open>update_parameters\<close>
  pushes a snapshot to the opponent pool exactly when it is made while the counter
  \<^verbatim>\<open>n_updates\<close> is a multiple of 10; a call made at any other value of the counter returns
  and grows neither the pool nor the rating list. The counter starts at 0 and counts the
  calls that returned: on a store with no ratings the first call pushes one snapshot and one
  rating, the nine calls after it push nothing, and the counter stands at 10 after the tenth.
\<close>

theorem update_parameters_cadence:
  assumes "save_every g = 10"
  shows "(n_updates g mod 10 \<noteq> 0 \<longrightarrow>
            update_parameters g b s =
              (None, g\<lparr>n_updates := n_updates g + 1\<rparr>,
               s\<lparr>model_latest := Some b, version_latest := Some (n_updates g)\<rparr>)) \<and>
         (n_updates g mod 10 = 0 \<longrightarrow>
            opponent_models (snd (snd (update_parameters g b s))) = opponent_models s @ [b]) \<and>
         (n_updates g mod 10 = 0 \<longrightarrow> qualities s = [] \<longrightarrow>
            update_parameters g b s =
              (None, g\<lparr>n_updates := n_updates g + 1\<rparr>,
               s\<lparr>model_latest := Some b, version_latest := Some (n_updates g),
                 opponent_models := opponent_models s @ [b],
                 qualities := [Rating_default_sigma 0]\<rparr>)) \<and>
         (n_updates g = 0 \<longrightarrow> qualities s = [] \<longrightarrow> 0 < k \<longrightarrow> k \<le> 10 \<longrightarrow>
            (\<exists>g' s'. update_many k g b s = (None, g', s') \<and> n_updates g' = k \<and>
               opponent_models s' = opponent_models s @ [b] \<and>
               qualities s' = [Rating_default_sigma 0]))"
proof (intro conjI impI)
  assume "n_updates g mod 10 \<noteq> 0"
  with assms show "update_parameters g b s =
      (None, g\<lparr>n_updates := n_updates g + 1\<rparr>,
       s\<lparr>model_latest := Some b, version_latest := Some (n_updates g)\<rparr>)"
    by (rule update_parameters_between_snapshots)
next
  assume "n_updates g mod 10 = 0"
  with assms show "opponent_models (snd (snd (update_parameters g b s))) = opponent_models s @ [b]"
    by (rule update_parameters_snapshot_pushed)
next
  assume "n_updates g mod 10 = 0" and "qualities s = []"
  with assms show "update_parameters g b s =
      (None, g\<lparr>n_updates := n_updates g + 1\<rparr>,
       s\<lparr>model_latest := Some b, version_latest := Some (n_updates g),
         opponent_models := opponent_models s @ [b],
         qualities := [Rating_default_sigma 0]\<rparr>)"
    by (rule update_parameters_first_snapshot)
next
  assume z: "n_updates g = 0" and q: "qualities s = []" and k: "0 < k" "k \<le> 10"
  let ?g1 = "g\<lparr>n_updates := n_updates g + 1\<rparr>"
  let ?s1 = "s\<lparr>model_latest := Some b, version_latest := Some (n_updates g),
         opponent_models := opponent_models s @ [b],
         qualities := [Rating_default_sigma 0]\<rparr>"
  from k obtain j where j: "k = Suc j" by (cases k) auto
  from z have "n_updates g mod 10 = 0" by simp
  from update_parameters_first_snapshot [OF assms this q]
  have u: "update_parameters g b s = (None, ?g1, ?s1)" .
  have "save_every ?g1 = 10" and "0 < n_updates ?g1" and "n_updates ?g1 + j \<le> 10"
    using assms z k j by simp_all
  from update_many_between_snapshots [OF this, of b ?s1]
  obtain g' s' where r: "update_many j ?g1 b ?s1 = (None, g', s')"
    and n: "n_updates g' = n_updates ?g1 + j"
    and o: "opponent_models s' = opponent_models ?s1" and q': "qualities s' = qualities ?s1"
    by blast
  have "update_many k g b s = (None, g', s')"
    using u r j by simp
  moreover have "n_updates g' = k" using n z j by simp
  ultimately show "\<exists>g' s'. update_many k g b s = (None, g', s') \<and> n_updates g' = k \<and>
      opponent_models s' = opponent_models s @ [b] \<and> qualities s' = [Rating_default_sigma 0]"
    using o q' by simp
qed

text \<open>
  Ten calls on a cleared store: one snapshot and one rating, the counter at 10; the call
  made at the counter value 3 pushes nothing, and the one made at 10 pushes a snapshot.
\<close>

theorem update_parameters_cadence_witness:
  "(\<exists>g' s'. update_many 10 \<lparr>n_updates = 0, save_every = 10, gen_logger = None\<rparr> ''m''
              (empty_store :: unit store) = (None, g', s') \<and>
      n_updates g' = 10 \<and> opponent_models s' = [''m''] \<and>
      qualities s' = [Rating_default_sigma 0]) \<and>
   update_parameters \<lparr>n_updates = 3, save_every = 10, gen_logger = None\<rparr> ''m''
       (empty_store :: unit store) =
     (None, \<lparr>n_updates = 4, save_every = 10, gen_logger = None\<rparr>,
      empty_store\<lparr>model_latest := Some ''m'', version_latest := Some 3\<rparr>) \<and>
   opponent_models (snd (snd (update_parameters
       \<lparr>n_updates = 10, save_every = 10, gen_logger = None\<rparr> ''n''
       (empty_store\<lparr>opponent_models := [''m''], qualities := [Rating_default_sigma 0]\<rparr>
          :: unit store)))) = [''m'', ''n'']"
proof -
  let ?g0 = "\<lparr>n_updates = 0, save_every = 10, gen_logger = None\<rparr>"
  let ?g3 = "\<lparr>n_updates = 3, save_every = 10, gen_logger = None\<rparr>"
  let ?g10 = "\<lparr>n_updates = 10, save_every = 10, gen_logger = None\<rparr>"
  let ?s10 = "empty_store\<lparr>opponent_models := [''m''], qualities := [Rating_default_sigma 0]\<rparr>
      :: unit store"
  have e: "qualities (empty_store :: unit store) = []"
    "opponent_models (empty_store :: unit store) = []"
    by (simp_all add: empty_store_def)
  have 1: "\<exists>g' s'. update_many 10 ?g0 ''m'' (empty_store :: unit store) = (None, g', s') \<and>
      n_updates g' = 10 \<and> opponent_models s' = [''m''] \<and>
      qualities s' = [Rating_default_sigma 0]"
    using update_parameters_cadence [of ?g0 "''m''" "empty_store :: unit store" 10] e
    by simp
  have 2: "update_parameters ?g3 ''m'' (empty_store :: unit store) =
     (None, \<lparr>n_updates = 4, save_every = 10, gen_logger = None\<rparr>,
      empty_store\<lparr>model_latest := Some ''m'', version_latest := Some 3\<rparr>)"
    using update_parameters_cadence [of ?g3 "''m''" "empty_store :: unit store" 0]
    by simp
  have 3: "opponent_models (snd (snd (update_parameters ?g10 ''n'' ?s10))) = [''m'', ''n'']"
    using update_parameters_cadence [of ?g10 "''n''" ?s10 0]
    by simp
  from 1 2 3 show ?thesis by blast
qed

text \<open>
  Counting the calls from one, the specification has the tenth call append and the first
  nine not. On a cleared store the first call grows the pool and the tenth does not.
\<close>

theorem update_parameters_cadence_counterexample:
  "length (opponent_models (snd (snd (update_many 1
       \<lparr>n_updates = 0, save_every = 10, gen_logger = Some Logger\<rparr> ''m''
       (empty_store :: unit store))))) = 1 \<and>
   length (opponent_models (snd (snd (update_many 9
       \<lparr>n_updates = 0, save_every = 10, gen_logger = Some Logger\<rparr> ''m''
       (empty_store :: unit store))))) = 1 \<and>
   length (opponent_models (snd (snd (update_many 10
       \<lparr>n_updates = 0, save_every = 10, gen_logger = Some Logger\<rparr> ''m''
       (empty_store :: unit store))))) = 1"
  by (simp add: eval_nat_numeral update_parameters_def add_opponent_def Let_def empty_store_def)

text \<open>
  C8, as the code has it. The rating list and the opponent pool have the same length: both
  are empty after a construction with \<^verbatim>\<open>clear\<close>, and \<^verbatim>\<open>_add_opponent\<close> and
  \<^verbatim>\<open>update_parameters\<close>, when they return, keep the two lengths equal. No entry for a
  baseline is ever pushed.
\<close>

theorem rating_list_as_long_as_pool:
  "length (qualities (snd (generator_init every lg True s0))) =
     length (opponent_models (snd (generator_init every lg True s0))) \<and>
   (length (qualities s) = length (opponent_models s) \<longrightarrow>
      add_opponent lg agent s = (None, s') \<longrightarrow>
      length (qualities s') = length (opponent_models s')) \<and>
   (length (qualities s) = length (opponent_models s) \<longrightarrow>
      update_parameters g b s = (None, g', s'') \<longrightarrow>
      length (qualities s'') = length (opponent_models s''))"
proof (intro conjI impI)
  show "length (qualities (snd (generator_init every lg True s0))) =
     length (opponent_models (snd (generator_init every lg True s0)))"
    by (simp add: generator_init_def empty_store_def)
next
  assume "length (qualities s) = length (opponent_models s)"
    and "add_opponent lg agent s = (None, s')"
  then show "length (qualities s') = length (opponent_models s')"
    using add_opponent_lengths [of lg agent s s'] by simp
next
  assume eq: "length (qualities s) = length (opponent_models s)"
    and up: "update_parameters g b s = (None, g', s'')"
  show "length (qualities s'') = length (opponent_models s'')"
  proof (cases "int (n_updates g) mod save_every g = 0")
    case True
    let ?s2 = "s\<lparr>model_latest := Some b, version_latest := Some (n_updates g)\<rparr>"
    from up True have "add_opponent (gen_logger g) b ?s2 = (None, s'')"
      by (auto simp: update_parameters_def Let_def split: if_splits prod.splits option.splits)
    from add_opponent_lengths [OF this] eq show ?thesis by simp
  next
    case False
    with up eq show ?thesis
      by (auto simp: update_parameters_def Let_def split: if_splits)
  qed
qed

theorem rating_list_as_long_as_pool_witness:
  "length (qualities (snd (generator_init 10 None True (empty_store :: unit store)))) =
     length (opponent_models (snd (generator_init 10 None True (empty_store :: unit store)))) \<and>
   length (qualities (snd (add_opponent None ''m'' (empty_store :: unit store)))) =
     length (opponent_models (snd (add_opponent None ''m'' (empty_store :: unit store)))) \<and>
   length (qualities (snd (snd (update_parameters
       \<lparr>n_updates = 0, save_every = 10, gen_logger = None\<rparr> ''m'' (empty_store :: unit store))))) =
     length (opponent_models (snd (snd (update_parameters
       \<lparr>n_updates = 0, save_every = 10, gen_logger = None\<rparr> ''m'' (empty_store :: unit store)))))"
  using rating_list_as_long_as_pool
    [of 10 None "empty_store :: unit store" "empty_store :: unit store" "''m''"
        "snd (add_opponent None ''m'' (empty_store :: unit store))"
        "\<lparr>n_updates = 0, save_every = 10, gen_logger = None\<rparr>" "''m''"
        "fst (snd (update_parameters \<lparr>n_updates = 0, save_every = 10, gen_logger = None\<rparr> ''m''
           (empty_store :: unit store)))"
        "snd (snd (update_parameters \<lparr>n_updates = 0, save_every = 10, gen_logger = None\<rparr> ''m''
           (empty_store :: unit store)))"]
  by (simp add: update_parameters_def add_opponent_def Let_def empty_store_def)

text \<open>
  The specification has the rating list one longer than the pool. After a construction with
  \<^verbatim>\<open>clear\<close> both are empty, and after the first \<^verbatim>\<open>update_parameters\<close> both hold one entry.
\<close>

theorem rating_list_one_longer_counterexample:
  "length (qualities (snd (generator_init 10 None True (empty_store :: unit store)))) \<noteq>
     1 + length (opponent_models (snd (generator_init 10 None True (empty_store :: unit store)))) \<and>
   length (qualities (snd (snd (update_parameters
       \<lparr>n_updates = 0, save_every = 10, gen_logger = None\<rparr> ''m'' (empty_store :: unit store))))) \<noteq>
     1 + length (opponent_models (snd (snd (update_parameters
       \<lparr>n_updates = 0, save_every = 10, gen_logger = None\<rparr> ''m'' (empty_store :: unit store)))))"
  by (simp add: generator_init_def update_parameters_def add_opponent_def Let_def empty_store_def)

section \<open>Waiting for the model\<close>

lemma run_turn_waits: "model_latest s = None \<Longrightarrow> run_turn shuffle generate_episode rnd w s = Waiting"
  by (simp add: run_turn_def)

lemma run_waits:
  "model_latest s = None \<Longrightarrow> run k shuffle generate_episode rnd w s = (None, w, s)"
  by (induction k) (simp_all add: run_turn_waits)

lemma worker_init_without_model:
  "model_latest s = None \<Longrightarrow> worker_init name agents prob uuid s = Inl TypeError"
  by (simp add: worker_init_def unserialize_def)

text \<open>
  C10. On a store with no latest model, a turn of \<^verbatim>\<open>run\<close> sleeps and polls again, but the
  constructor, which polls first, raises: \<^verbatim>\<open>pickle.loads(None)\<close> is a \<^verbatim>\<open>TypeError\<close>, and
  no worker exists to enter the loop.
\<close>

theorem worker_init_raises_without_model:
  "worker_init ''worker'' 2 (9 / 10) ''uuid'' (empty_store :: unit store) = Inl TypeError \<and>
   run_turn shuffle generate_episode rnd w (empty_store :: unit store) = Waiting"
  by (simp add: worker_init_def run_turn_def unserialize_def empty_store_def)

section \<open>The loop over a submission\<close>

lemma resolve_seats_ok:
  "resolves qs data \<Longrightarrow>
   resolve_seats qs latest bp n data (b, o', r) =
     Inr (b @ seat_ratings qs (take (bp - n) data),
          o' @ seat_ratings qs (drop (bp - n) data),
          r @ current_rollouts latest data)"
proof (induction data arbitrary: n b o' r)
  case Nil
  then show ?case by (simp add: seat_ratings_def current_rollouts_def)
next
  case (Cons x data)
  obtain t v where x: "x = (t, v)" by (cases x)
  from Cons.prems x have v: "v < length qs" and rest: "resolves qs data"
    by (simp_all add: resolves_def)
  show ?case
  proof (cases "n < bp")
    case True
    then have d: "bp - n = Suc (bp - Suc n)" by simp
    show ?thesis
      using True v x Cons.IH [OF rest]
      by (simp add: d lindex_def unserialize_def seat_ratings_def current_rollouts_def)
  next
    case False
    then have d: "bp - n = 0" "bp - Suc n = 0" by simp_all
    show ?thesis
      using False v x Cons.IH [OF rest, of "Suc n"]
      by (simp add: d lindex_def unserialize_def seat_ratings_def current_rollouts_def)
  qed
qed

lemma resolve_seats_fail:
  "\<not> resolves qs data \<Longrightarrow> resolve_seats qs latest bp n data acc = Inl TypeError"
proof (induction data arbitrary: n acc)
  case Nil
  then show ?case by (simp add: resolves_def)
next
  case (Cons x data)
  obtain t v where x: "x = (t, v)" by (cases x)
  obtain b o' r where acc: "acc = (b, o', r)" by (cases acc)
  show ?case
  proof (cases "v < length qs")
    case True
    with Cons.prems x have "\<not> resolves qs data" by (simp add: resolves_def)
    from Cons.IH [OF this] True x acc show ?thesis
      by (simp add: lindex_def unserialize_def)
  next
    case False
    with x acc show ?thesis by (simp add: lindex_def unserialize_def)
  qed
qed

lemma keys_setdefault_append:
  "fst ` set (setdefault_append m v r) = insert v (fst ` set m)"
  by (induction m v r rule: setdefault_append.induct) auto

lemma distinct_setdefault_append:
  "distinct (map fst m) \<Longrightarrow> distinct (map fst (setdefault_append m v r))"
proof (induction m v r rule: setdefault_append.induct)
  case (1 version r)
  then show ?case by simp
next
  case (2 k rs m version r)
  then show ?case
    using keys_setdefault_append [of m version r] by (auto simp: image_iff)
qed

lemma nonempty_setdefault_append:
  "[] \<notin> snd ` set m \<Longrightarrow> [] \<notin> snd ` set (setdefault_append m v r)"
  by (induction m v r rule: setdefault_append.induct) auto

lemma map_of_setdefault_append:
  "map_of (setdefault_append m v r) =
     (map_of m)(v \<mapsto> (case map_of m v of None \<Rightarrow> [] | Some rs \<Rightarrow> rs) @ [r])"
  by (induction m v r rule: setdefault_append.induct) (auto simp: fun_eq_iff)

lemma write_back_keeps_entry:
  "k \<notin> fst ` set m \<Longrightarrow> lindex (snd (write_back m qs)) k = lindex qs k"
proof (induction m arbitrary: qs)
  case Nil
  then show ?case by simp
next
  case (Cons x m)
  obtain v rs where x: "x = (v, rs)" by (cases x)
  from Cons.prems x have v: "v \<noteq> k" and rest: "k \<notin> fst ` set m" by auto
  show ?case
  proof (cases "rs = [] \<or> \<not> v < length qs")
    case True
    with x show ?thesis by (auto simp: lset_def)
  next
    case False
    then have "write_back (x # m) qs = write_back m (qs[v := avg_rating rs])"
      using x by (simp add: lset_def)
    with Cons.IH [OF rest, of "qs[v := avg_rating rs]"] v show ?thesis
      by (simp add: lindex_def)
  qed
qed

lemma write_back_ok:
  "distinct (map fst m) \<Longrightarrow> \<forall>(v, rs) \<in> set m. v < length qs \<and> rs \<noteq> [] \<Longrightarrow>
   \<exists>qs'. write_back m qs = (None, qs') \<and> length qs' = length qs \<and>
     (\<forall>v < length qs. qs' ! v = (case map_of m v of None \<Rightarrow> qs ! v | Some rs \<Rightarrow> avg_rating rs))"
proof (induction m arbitrary: qs)
  case Nil
  then show ?case by simp
next
  case (Cons x m)
  obtain v rs where x: "x = (v, rs)" by (cases x)
  let ?qs = "qs[v := avg_rating rs]"
  from Cons.prems x have v: "v < length qs" and rs: "rs \<noteq> []"
    and nk: "v \<notin> fst ` set m" and d: "distinct (map fst m)"
    and rest: "\<forall>(v, rs) \<in> set m. v < length ?qs \<and> rs \<noteq> []"
    by auto
  from Cons.IH [OF d rest] obtain qs' where w: "write_back m ?qs = (None, qs')"
    and l: "length qs' = length ?qs"
    and e: "\<forall>u < length ?qs. qs' ! u = (case map_of m u of None \<Rightarrow> ?qs ! u | Some rs \<Rightarrow> avg_rating rs)"
    by blast
  have "write_back (x # m) qs = (None, qs')"
    using x v rs w by (simp add: lset_def)
  moreover have "length qs' = length qs" using l by simp
  moreover have "\<forall>u < length qs. qs' ! u =
      (case map_of (x # m) u of None \<Rightarrow> qs ! u | Some rs \<Rightarrow> avg_rating rs)"
  proof (intro allI impI)
    fix u assume u: "u < length qs"
    show "qs' ! u = (case map_of (x # m) u of None \<Rightarrow> qs ! u | Some rs \<Rightarrow> avg_rating rs)"
    proof (cases "u = v")
      case True
      from nk have "map_of m v = None" by (simp add: map_of_eq_None_iff)
      with e u True x show ?thesis by simp
    next
      case False
      with e u x show ?thesis by (simp split: option.splits)
    qed
  qed
  ultimately show ?case by blast
qed

section \<open>Grouping by version and the write-back\<close>

lemma bind_err_Inr: "bind_err x f = Inr y \<longleftrightarrow> (\<exists>a. x = Inr a \<and> f a = Inr y)"
  by (cases x) simp_all

lemma bind_err_Inl: "bind_err x f = Inl e \<longleftrightarrow> x = Inl e \<or> (\<exists>a. x = Inr a \<and> f a = Inl e)"
  by (cases x) simp_all

lemma keys_foldl_setdefault:
  "fst ` set (foldl (\<lambda>versions (r, (rollout, version)). setdefault_append versions version r) m zs) =
   fst ` set m \<union> (snd \<circ> snd) ` set zs"
proof (induction zs arbitrary: m)
  case Nil
  then show ?case by simp
next
  case (Cons z zs)
  obtain r t v where z: "z = (r, (t, v))" by (cases z) auto
  show ?case
    using Cons.IH [of "setdefault_append m v r"] z
    by (simp add: keys_setdefault_append)
qed

lemma distinct_foldl_setdefault:
  "distinct (map fst m) \<Longrightarrow>
   distinct (map fst (foldl (\<lambda>versions (r, (rollout, version)). setdefault_append versions version r) m zs))"
proof (induction zs arbitrary: m)
  case Nil
  then show ?case by simp
next
  case (Cons z zs)
  obtain r t v where z: "z = (r, (t, v))" by (cases z) auto
  show ?case
    using Cons.IH [OF distinct_setdefault_append [OF Cons.prems, of v r]] z by simp
qed

lemma nonempty_foldl_setdefault:
  "[] \<notin> snd ` set m \<Longrightarrow>
   [] \<notin> snd ` set (foldl (\<lambda>versions (r, (rollout, version)). setdefault_append versions version r) m zs)"
proof (induction zs arbitrary: m)
  case Nil
  then show ?case by simp
next
  case (Cons z zs)
  obtain r t v where z: "z = (r, (t, v))" by (cases z) auto
  show ?case
    using Cons.IH [OF nonempty_setdefault_append [OF Cons.prems, of v r]] z by simp
qed

lemma keys_group_versions:
  "fst ` set (group_versions new_ratings data) = (snd \<circ> snd) ` set (zip new_ratings data)"
  by (simp add: group_versions_def keys_foldl_setdefault)

lemma keys_group_versions_subset:
  "fst ` set (group_versions new_ratings data) \<subseteq> snd ` set data"
proof -
  have "\<And>r t v. (r, (t, v)) \<in> set (zip new_ratings data) \<Longrightarrow> v \<in> snd ` set data"
  proof -
    fix r t v assume "(r, (t, v)) \<in> set (zip new_ratings data)"
    then have "(t, v) \<in> set data" by (rule set_zip_rightD)
    then show "v \<in> snd ` set data" by force
  qed
  then show ?thesis by (auto simp: keys_group_versions)
qed

lemma keys_group_versions_all:
  assumes "length new_ratings = length data"
  shows "fst ` set (group_versions new_ratings data) = snd ` set data"
proof -
  have "(snd \<circ> snd) ` set (zip new_ratings data) = snd ` set (map snd (zip new_ratings data))"
    by (simp add: image_comp)
  also have "map snd (zip new_ratings data) = data"
    using assms by simp
  finally show ?thesis by (simp add: keys_group_versions)
qed

lemma distinct_group_versions: "distinct (map fst (group_versions new_ratings data))"
  by (simp add: group_versions_def distinct_foldl_setdefault)

lemma nonempty_group_versions: "[] \<notin> snd ` set (group_versions new_ratings data)"
  by (simp add: group_versions_def nonempty_foldl_setdefault)

lemma del_key_Inr:
  "del_key k m = Inr m' \<longleftrightarrow> k \<in> fst ` set m \<and> m' = filter (\<lambda>kv. fst kv \<noteq> k) m"
  by (auto simp: del_key_def)

lemma del_key_Inl: "del_key k m = Inl e \<longleftrightarrow> k \<notin> fst ` set m \<and> e = KeyError"
  by (auto simp: del_key_def)

lemma writeback_map_keys:
  assumes "writeback_map core s sub = Inr (m, rs)"
  shows "0 \<notin> fst ` set m \<and> 0 \<in> snd ` set (rollout_data sub)"
proof -
  from assms obtain r1 r2 where
    d: "del_key 0 (group_versions (r1 @ r2) (rollout_data sub)) = Inr m"
    by (auto simp: writeback_map_def bind_err_Inr)
  then have "0 \<in> fst ` set (group_versions (r1 @ r2) (rollout_data sub))"
    and m: "m = filter (\<lambda>kv. fst kv \<noteq> 0) (group_versions (r1 @ r2) (rollout_data sub))"
    by (simp_all add: del_key_Inr)
  then have "0 \<in> snd ` set (rollout_data sub)"
    using keys_group_versions_subset [of "r1 @ r2" "rollout_data sub"] by blast
  moreover have "0 \<notin> fst ` set m" using m by auto
  ultimately show ?thesis by simp
qed

text \<open>
  C6. Whatever the submission holds, the dict of line 97, when the turn gets that far, has
  no key 0, and the turn leaves entry 0 of the stored rating list as it found it, whether it
  ends by yielding or by raising.
\<close>

theorem version_zero_never_written:
  "(\<forall>m rs. writeback_map core s sub = Inr (m, rs) \<longrightarrow> 0 \<notin> fst ` set m) \<and>
   lindex (qualities (snd (process_submission core s sub))) 0 = lindex (qualities s) 0"
proof
  show "\<forall>m rs. writeback_map core s sub = Inr (m, rs) \<longrightarrow> 0 \<notin> fst ` set m"
    using writeback_map_keys by blast
next
  show "lindex (qualities (snd (process_submission core s sub))) 0 = lindex (qualities s) 0"
  proof (cases "writeback_map core s sub")
    case (Inl e)
    then show ?thesis by (simp add: process_submission_def)
  next
    case (Inr p)
    obtain m rs where p: "p = (m, rs)" by (cases p)
    with Inr have "0 \<notin> fst ` set m" using writeback_map_keys by blast
    from write_back_keeps_entry [OF this, of "qualities s"] Inr p show ?thesis
      by (cases "write_back m (qualities s)")
         (auto simp: process_submission_def split: option.splits)
  qed
qed

lemma writeback_map_mixed:
  "writeback_map sample_core sample_store sub_mixed = Inr ([(1, [Rating 1 1])], [10])"
  by (simp add: writeback_map_def sample_store_def sub_mixed_def unserialize_def blue_players_def
      lindex_def update_ratings_def rate_def group_versions_def del_key_def gain_def Rating_def)

lemma process_mixed:
  "process_submission sample_core sample_store sub_mixed =
     (Inr [10], sample_store\<lparr>qualities := [Rating 0 1, Rating 1 1]\<rparr>)"
  by (simp add: process_submission_def writeback_map_mixed)
     (simp add: sample_store_def lset_def avg_rating_def Rating_def)

lemma process_current:
  "process_submission sample_core sample_store sub_current = (Inl KeyError, sample_store)"
  by (simp add: process_submission_def writeback_map_def sample_store_def sub_current_def
      unserialize_def blue_players_def
      lindex_def update_ratings_def rate_def group_versions_def del_key_def gain_def Rating_def)

lemma process_missing:
  "process_submission sample_core sample_store sub_missing = (Inl TypeError, sample_store)"
  by (simp add: process_submission_def writeback_map_def sample_store_def sub_missing_def
      unserialize_def blue_players_def
      lindex_def update_ratings_def rate_def group_versions_def del_key_def gain_def Rating_def)

text \<open>
  On the sample store, the submission with a seat of version 1 and a seat of version 0
  writes back version 1 only.
\<close>

theorem version_zero_never_written_witness:
  "writeback_map sample_core sample_store sub_mixed = Inr ([(1, [Rating 1 1])], [10]) \<and>
   0 \<notin> fst ` set [(1::nat, [Rating 1 1])] \<and>
   lindex (qualities (snd (process_submission sample_core sample_store sub_mixed))) 0 =
     Some (Rating 0 1)"
  using version_zero_never_written [of sample_core sample_store sub_mixed] writeback_map_mixed
  by (simp add: sample_store_def lindex_def)

section \<open>A turn of the generator\<close>

lemma update_ratings_shape:
  assumes "keeps_shape core" and "update_ratings core b o' res = Inr (r1, r2)"
  shows "length r1 = length b \<and> length r2 = length o'"
proof (cases "res \<ge> 0")
  case True
  with assms(2) obtain out where c: "core [b, o'] [0, res] = Some out" and u: "unpack2 out = Inr (r1, r2)"
    by (auto simp: update_ratings_def rate_def bind_err_Inr split: option.splits)
  from assms(1) c have "map length out = [length b, length o']"
    unfolding keeps_shape_def by fastforce
  with u show ?thesis by (cases out rule: unpack2.cases) auto
next
  case False
  with assms(2) obtain out where c: "core [o', b] [0, 1] = Some out"
    and u: "unpack2 out = Inr (r2, r1)"
    by (auto simp: update_ratings_def rate_def bind_err_Inr split: option.splits prod.splits)
  from assms(1) c have "map length out = [length o', length b]"
    unfolding keeps_shape_def by fastforce
  with u show ?thesis by (cases out rule: unpack2.cases) auto
qed

lemma writeback_map_resolved:
  assumes "version_latest s = Some latest" and "resolves (qualities s) (rollout_data sub)"
  shows "writeback_map core s sub =
     bind_err (update_ratings core
         (seat_ratings (qualities s) (take (blue_players (rollout_data sub)) (rollout_data sub)))
         (seat_ratings (qualities s) (drop (blue_players (rollout_data sub)) (rollout_data sub)))
         (sub_result sub))
       (\<lambda>(r1, r2).
          bind_err (del_key 0 (group_versions (r1 @ r2) (rollout_data sub)))
            (\<lambda>versions. Inr (versions, current_rollouts latest (rollout_data sub))))"
  using assms resolve_seats_ok [OF assms(2), of latest "blue_players (rollout_data sub)" 0 "[]" "[]" "[]"]
  by (simp add: writeback_map_def unserialize_def)

lemma writeback_map_unresolved:
  assumes "\<not> resolves (qualities s) (rollout_data sub)"
  shows "writeback_map core s sub = Inl TypeError"
  using resolve_seats_fail [OF assms]
  by (cases "version_latest s") (simp_all add: writeback_map_def unserialize_def)

lemma seat_ratings_length: "length (seat_ratings qs data) = length data"
  by (simp add: seat_ratings_def)

lemma resolves_version: "resolves qs data \<Longrightarrow> v \<in> snd ` set data \<Longrightarrow> v < length qs"
  by (auto simp: resolves_def list_all_iff)

text \<open>What the turn does once the ratings are read and the rating call has returned.\<close>

lemma process_submission_after_rate:
  assumes shape: "keeps_shape core"
    and latest: "version_latest s = Some latest"
    and res: "resolves (qualities s) (rollout_data sub)"
    and upd: "update_ratings core
         (seat_ratings (qualities s) (take (blue_players (rollout_data sub)) (rollout_data sub)))
         (seat_ratings (qualities s) (drop (blue_players (rollout_data sub)) (rollout_data sub)))
         (sub_result sub) = Inr (r1, r2)"
  shows "(0 \<notin> snd ` set (rollout_data sub) \<longrightarrow>
            process_submission core s sub = (Inl KeyError, s)) \<and>
         (0 \<in> snd ` set (rollout_data sub) \<longrightarrow>
            (\<exists>qs'. process_submission core s sub =
                (Inr (current_rollouts latest (rollout_data sub)), s\<lparr>qualities := qs'\<rparr>) \<and>
              length qs' = length (qualities s) \<and>
              (\<forall>v < length (qualities s). qs' ! v =
                 (case map_of (filter (\<lambda>kv. fst kv \<noteq> 0)
                                 (group_versions (r1 @ r2) (rollout_data sub))) v of
                    None \<Rightarrow> qualities s ! v
                  | Some rs \<Rightarrow> avg_rating rs))))"
proof -
  let ?data = "rollout_data sub"
  let ?g = "group_versions (r1 @ r2) ?data"
  let ?m = "filter (\<lambda>kv. fst kv \<noteq> 0) ?g"
  have len: "length (r1 @ r2) = length ?data"
    using update_ratings_shape [OF shape upd] by (simp add: seat_ratings_length)
  have keys: "fst ` set ?g = snd ` set ?data"
    using keys_group_versions_all [OF len] .
  have wm: "writeback_map core s sub =
      bind_err (del_key 0 ?g) (\<lambda>versions. Inr (versions, current_rollouts latest ?data))"
    using writeback_map_resolved [OF latest res, of core] upd by simp
  show ?thesis
  proof (intro conjI impI)
    assume "0 \<notin> snd ` set ?data"
    then have "del_key 0 ?g = Inl KeyError"
      using keys by (simp add: del_key_def)
    then show "process_submission core s sub = (Inl KeyError, s)"
      using wm by (simp add: process_submission_def)
  next
    assume "0 \<in> snd ` set ?data"
    then have d: "del_key 0 ?g = Inr ?m"
      using keys by (simp add: del_key_def)
    have w: "writeback_map core s sub = Inr (?m, current_rollouts latest ?data)"
      using wm d by simp
    have dist: "distinct (map fst ?m)"
      using distinct_group_versions [of "r1 @ r2" ?data] by (simp add: distinct_map_filter)
    have ok: "\<forall>(v, rs) \<in> set ?m. v < length (qualities s) \<and> rs \<noteq> []"
    proof (clarify, rule conjI)
      fix v rs assume in_m: "(v, rs) \<in> set ?m"
      then have "(v, rs) \<in> set ?g" by simp
      then have "v \<in> fst ` set ?g" by force
      with keys res show "v < length (qualities s)"
        using resolves_version by blast
      from \<open>(v, rs) \<in> set ?g\<close> nonempty_group_versions [of "r1 @ r2" ?data]
      show "rs \<noteq> []" by force
    qed
    from write_back_ok [OF dist ok] obtain qs' where
      wb: "write_back ?m (qualities s) = (None, qs')" and l: "length qs' = length (qualities s)"
      and e: "\<forall>v < length (qualities s). qs' ! v =
          (case map_of ?m v of None \<Rightarrow> qualities s ! v | Some rs \<Rightarrow> avg_rating rs)"
      by blast
    have "process_submission core s sub =
        (Inr (current_rollouts latest ?data), s\<lparr>qualities := qs'\<rparr>)"
      using w wb by (simp add: process_submission_def)
    with l e show "\<exists>qs'. process_submission core s sub =
                (Inr (current_rollouts latest ?data), s\<lparr>qualities := qs'\<rparr>) \<and>
              length qs' = length (qualities s) \<and>
              (\<forall>v < length (qualities s). qs' ! v =
                 (case map_of ?m v of None \<Rightarrow> qualities s ! v | Some rs \<Rightarrow> avg_rating rs))"
      by blast
  qed
qed

lemma map_of_Some_key: "map_of m v = Some a \<Longrightarrow> v \<in> fst ` set m"
  by (force dest: map_of_SomeD)

lemma map_of_foldl_setdefault:
  "map_of (foldl (\<lambda>versions (r, (rollout, version)). setdefault_append versions version r) m zs) v =
   (if v \<in> fst ` set m \<union> (snd \<circ> snd) ` set zs
    then Some ((case map_of m v of None \<Rightarrow> [] | Some rs \<Rightarrow> rs) @
               map fst (filter (\<lambda>(r, (rollout, version)). version = v) zs))
    else None)"
proof (induction zs arbitrary: m)
  case Nil
  show ?case
    by (cases "map_of m v") (auto simp: map_of_eq_None_iff dest: map_of_Some_key)
next
  case (Cons z zs)
  obtain r t u where z: "z = (r, (t, u))" by (cases z) auto
  show ?case
    using Cons.IH [of "setdefault_append m u r"] z
    by (cases "map_of m v")
       (auto simp: keys_setdefault_append map_of_setdefault_append map_of_eq_None_iff
             dest: map_of_Some_key)
qed

lemma map_of_group_versions:
  "map_of (group_versions new_ratings data) v =
   (if v \<in> (snd \<circ> snd) ` set (zip new_ratings data)
    then Some (ratings_of_version new_ratings data v) else None)"
  by (simp add: group_versions_def ratings_of_version_def map_of_foldl_setdefault)

lemma map_of_filter_key:
  "map_of (filter (\<lambda>kv. fst kv \<noteq> k) m) v = (if v = k then None else map_of m v)"
  by (induction m) auto

lemma seat_ratings_take_drop:
  "seat_ratings qs (take n data) @ seat_ratings qs (drop n data) = seat_ratings qs data"
  by (simp add: seat_ratings_def flip: map_append)

lemma sample_core_keeps_shape: "keeps_shape sample_core"
  unfolding keeps_shape_def
proof (intro allI impI)
  fix groups ranks out
  assume "sample_core groups ranks = Some out"
  then show "map length out = map length groups"
    by (cases "(groups, ranks)" rule: sample_core.cases) (auto split: if_splits)
qed

lemma update_ratings_sample:
  "update_ratings sample_core [Rating 0 1] [Rating 0 1] 1 = Inr ([Rating 1 1], [Rating (-1) 1])"
  by (simp add: update_ratings_def rate_def gain_def Rating_def)

text \<open>
  C7, as the code has it. When the latest version is set, every record's version has a
  rating and the rating call returns (its library keeping the shape of the groups), the turn
  raises the \<^verbatim>\<open>KeyError\<close> of line 96, with the store untouched and nothing yielded, exactly
  when no record of the submission has version 0, and it reaches the end of the turn exactly
  when one has. The write-back loop is reached only for a submission with a record of
  version 0.
\<close>

theorem key_error_without_version_zero:
  assumes "keeps_shape core"
    and "version_latest s = Some latest"
    and "resolves (qualities s) (rollout_data sub)"
    and "update_ratings core
         (seat_ratings (qualities s) (take (blue_players (rollout_data sub)) (rollout_data sub)))
         (seat_ratings (qualities s) (drop (blue_players (rollout_data sub)) (rollout_data sub)))
         (sub_result sub) = Inr (r1, r2)"
  shows "(process_submission core s sub = (Inl KeyError, s)) =
           (0 \<notin> snd ` set (rollout_data sub)) \<and>
         (\<exists>ys s'. process_submission core s sub = (Inr ys, s')) =
           (0 \<in> snd ` set (rollout_data sub)) \<and>
         (\<forall>m rs. writeback_map core s sub = Inr (m, rs) \<longrightarrow> 0 \<in> snd ` set (rollout_data sub))"
proof -
  note a = process_submission_after_rate [OF assms]
  have "(process_submission core s sub = (Inl KeyError, s)) =
           (0 \<notin> snd ` set (rollout_data sub))"
  proof (cases "0 \<in> snd ` set (rollout_data sub)")
    case True
    with a obtain qs' where "process_submission core s sub =
        (Inr (current_rollouts latest (rollout_data sub)), s\<lparr>qualities := qs'\<rparr>)"
      by blast
    with True show ?thesis by simp
  next
    case False
    with a show ?thesis by simp
  qed
  moreover have "(\<exists>ys s'. process_submission core s sub = (Inr ys, s')) =
           (0 \<in> snd ` set (rollout_data sub))"
  proof (cases "0 \<in> snd ` set (rollout_data sub)")
    case True
    with a obtain qs' where "process_submission core s sub =
        (Inr (current_rollouts latest (rollout_data sub)), s\<lparr>qualities := qs'\<rparr>)"
      by blast
    with True show ?thesis by simp
  next
    case False
    with a have "process_submission core s sub = (Inl KeyError, s)" by simp
    with False show ?thesis by simp
  qed
  moreover have "\<forall>m rs. writeback_map core s sub = Inr (m, rs) \<longrightarrow>
      0 \<in> snd ` set (rollout_data sub)"
    using writeback_map_keys by blast
  ultimately show ?thesis by simp
qed

text \<open>
  On the sample store, the submission with both seats of version 1 raises the
  \<^verbatim>\<open>KeyError\<close>, and the one with a seat of version 0 is written back.
\<close>

theorem key_error_without_version_zero_witness:
  "process_submission sample_core sample_store sub_current = (Inl KeyError, sample_store) \<and>
   0 \<notin> snd ` set (rollout_data sub_current) \<and>
   (\<exists>ys s'. process_submission sample_core sample_store sub_mixed = (Inr ys, s')) \<and>
   0 \<in> snd ` set (rollout_data sub_mixed)"
proof -
  have c: "0 \<notin> snd ` set (rollout_data sub_current)"
    by (simp add: sub_current_def)
  have m: "0 \<in> snd ` set (rollout_data sub_mixed)"
    by (simp add: sub_mixed_def)
  have l: "version_latest sample_store = Some 1"
    by (simp add: sample_store_def)
  have rc: "resolves (qualities sample_store) (rollout_data sub_current)"
    by (simp add: resolves_def sample_store_def sub_current_def)
  have rm: "resolves (qualities sample_store) (rollout_data sub_mixed)"
    by (simp add: resolves_def sample_store_def sub_mixed_def)
  have uc: "update_ratings sample_core
      (seat_ratings (qualities sample_store)
         (take (blue_players (rollout_data sub_current)) (rollout_data sub_current)))
      (seat_ratings (qualities sample_store)
         (drop (blue_players (rollout_data sub_current)) (rollout_data sub_current)))
      (sub_result sub_current) = Inr ([Rating 1 1], [Rating (-1) 1])"
    using update_ratings_sample
    by (simp add: seat_ratings_def blue_players_def sample_store_def sub_current_def)
  have um: "update_ratings sample_core
      (seat_ratings (qualities sample_store)
         (take (blue_players (rollout_data sub_mixed)) (rollout_data sub_mixed)))
      (seat_ratings (qualities sample_store)
         (drop (blue_players (rollout_data sub_mixed)) (rollout_data sub_mixed)))
      (sub_result sub_mixed) = Inr ([Rating 1 1], [Rating (-1) 1])"
    using update_ratings_sample
    by (simp add: seat_ratings_def blue_players_def sample_store_def sub_mixed_def)
  from key_error_without_version_zero [OF sample_core_keeps_shape l rc uc]
       key_error_without_version_zero [OF sample_core_keeps_shape l rm um] c m
  show ?thesis by simp
qed

text \<open>
  The specification has the \<^verbatim>\<open>KeyError\<close> raised whenever no record has version 0. The sample
  submission with a seat of version 2, which has no rating, holds no record of version 0, and
  the turn raises the \<^verbatim>\<open>TypeError\<close> of line 79 instead: line 96 is never reached.
\<close>

theorem key_error_without_version_zero_counterexample:
  "0 \<notin> snd ` set (rollout_data sub_missing) \<and>
   process_submission sample_core sample_store sub_missing \<noteq> (Inl KeyError, sample_store) \<and>
   fst (process_submission sample_core sample_store sub_missing) = Inl TypeError"
  by (simp add: process_missing) (simp add: sub_missing_def)

section \<open>What a submission yields, and what ends the generator\<close>

text \<open>
  C2, as the code has it. When the latest version is set, every record's version has a
  rating, the rating call returns and a record has version 0, the turn yields exactly the
  trajectories whose version is the latest one, read once at the head of the turn, in
  submission order. The rating call is given the stored ratings of all seats, stale ones
  included, and every version of the submission but 0 has its entry overwritten with the
  average of the new ratings of its seats; every other entry is left as it was.
\<close>

theorem yields_latest_version_only:
  assumes "keeps_shape core"
    and "version_latest s = Some latest"
    and "resolves (qualities s) (rollout_data sub)"
    and "update_ratings core
         (seat_ratings (qualities s) (take (blue_players (rollout_data sub)) (rollout_data sub)))
         (seat_ratings (qualities s) (drop (blue_players (rollout_data sub)) (rollout_data sub)))
         (sub_result sub) = Inr (r1, r2)"
    and "0 \<in> snd ` set (rollout_data sub)"
  shows "seat_ratings (qualities s) (take (blue_players (rollout_data sub)) (rollout_data sub)) @
         seat_ratings (qualities s) (drop (blue_players (rollout_data sub)) (rollout_data sub)) =
           seat_ratings (qualities s) (rollout_data sub) \<and>
         (\<exists>qs'. process_submission core s sub =
             (Inr (current_rollouts latest (rollout_data sub)), s\<lparr>qualities := qs'\<rparr>) \<and>
           length qs' = length (qualities s) \<and>
           (\<forall>v < length (qualities s). qs' ! v =
              (if v \<noteq> 0 \<and> v \<in> snd ` set (rollout_data sub)
               then avg_rating (ratings_of_version (r1 @ r2) (rollout_data sub) v)
               else qualities s ! v)))"
proof
  show "seat_ratings (qualities s) (take (blue_players (rollout_data sub)) (rollout_data sub)) @
        seat_ratings (qualities s) (drop (blue_players (rollout_data sub)) (rollout_data sub)) =
          seat_ratings (qualities s) (rollout_data sub)"
    by (rule seat_ratings_take_drop)
next
  let ?data = "rollout_data sub"
  let ?g = "group_versions (r1 @ r2) ?data"
  let ?m = "filter (\<lambda>kv. fst kv \<noteq> 0) ?g"
  have len: "length (r1 @ r2) = length ?data"
    using update_ratings_shape [OF assms(1) assms(4)] by (simp add: seat_ratings_length)
  have keys: "(snd \<circ> snd) ` set (zip (r1 @ r2) ?data) = snd ` set ?data"
    using keys_group_versions_all [OF len] by (simp add: keys_group_versions)
  have mo: "\<And>v. map_of ?m v =
      (if v \<noteq> 0 \<and> v \<in> snd ` set ?data
       then Some (ratings_of_version (r1 @ r2) ?data v) else None)"
  proof -
    fix v
    have "map_of ?g v =
        (if v \<in> snd ` set ?data then Some (ratings_of_version (r1 @ r2) ?data v) else None)"
      unfolding map_of_group_versions keys by (rule refl)
    then show "map_of ?m v =
      (if v \<noteq> 0 \<and> v \<in> snd ` set ?data
       then Some (ratings_of_version (r1 @ r2) ?data v) else None)"
      by (subst map_of_filter_key) simp
  qed
  from process_submission_after_rate [OF assms(1-4)] assms(5)
  obtain qs' where p: "process_submission core s sub =
        (Inr (current_rollouts latest ?data), s\<lparr>qualities := qs'\<rparr>)"
    and l: "length qs' = length (qualities s)"
    and e: "\<forall>v < length (qualities s). qs' ! v =
        (case map_of ?m v of None \<Rightarrow> qualities s ! v | Some rs \<Rightarrow> avg_rating rs)"
    by blast
  have "\<forall>v < length (qualities s). qs' ! v =
      (if v \<noteq> 0 \<and> v \<in> snd ` set ?data
       then avg_rating (ratings_of_version (r1 @ r2) ?data v)
       else qualities s ! v)"
  proof (intro allI impI)
    fix v assume "v < length (qualities s)"
    with e have "qs' ! v =
        (case map_of ?m v of None \<Rightarrow> qualities s ! v | Some rs \<Rightarrow> avg_rating rs)"
      by blast
    then show "qs' ! v =
      (if v \<noteq> 0 \<and> v \<in> snd ` set ?data
       then avg_rating (ratings_of_version (r1 @ r2) ?data v)
       else qualities s ! v)"
      unfolding mo by simp
  qed
  with p l show "\<exists>qs'. process_submission core s sub =
             (Inr (current_rollouts latest ?data), s\<lparr>qualities := qs'\<rparr>) \<and>
           length qs' = length (qualities s) \<and>
           (\<forall>v < length (qualities s). qs' ! v =
              (if v \<noteq> 0 \<and> v \<in> snd ` set ?data
               then avg_rating (ratings_of_version (r1 @ r2) ?data v)
               else qualities s ! v))"
    by blast
qed

text \<open>
  On the sample store the submission with a seat of version 1 and a seat of version 0 yields
  the trajectory of version 1 alone, and the new rating of that seat is written to entry 1.
\<close>

theorem yields_latest_version_only_witness:
  "\<exists>qs'. process_submission sample_core sample_store sub_mixed =
       (Inr [10], sample_store\<lparr>qualities := qs'\<rparr>) \<and>
     length qs' = 2 \<and> qs' ! 0 = Rating 0 1 \<and> qs' ! 1 = Rating 1 1"
proof -
  have m: "0 \<in> snd ` set (rollout_data sub_mixed)"
    by (simp add: sub_mixed_def)
  have l: "version_latest sample_store = Some 1"
    by (simp add: sample_store_def)
  have rm: "resolves (qualities sample_store) (rollout_data sub_mixed)"
    by (simp add: resolves_def sample_store_def sub_mixed_def)
  have um: "update_ratings sample_core
      (seat_ratings (qualities sample_store)
         (take (blue_players (rollout_data sub_mixed)) (rollout_data sub_mixed)))
      (seat_ratings (qualities sample_store)
         (drop (blue_players (rollout_data sub_mixed)) (rollout_data sub_mixed)))
      (sub_result sub_mixed) = Inr ([Rating 1 1], [Rating (-1) 1])"
    using update_ratings_sample
    by (simp add: seat_ratings_def blue_players_def sample_store_def sub_mixed_def)
  have c: "current_rollouts 1 (rollout_data sub_mixed) = [10]"
    by (simp add: current_rollouts_def sub_mixed_def)
  have a: "avg_rating (ratings_of_version ([Rating 1 1] @ [Rating (- 1) 1])
             (rollout_data sub_mixed) 1) = Rating 1 1"
    by (simp add: ratings_of_version_def sub_mixed_def avg_rating_def Rating_def)
  have q: "qualities sample_store = [Rating 0 1, Rating 0 1]"
    by (simp add: sample_store_def)
  from yields_latest_version_only [OF sample_core_keeps_shape l rm um m]
  obtain qs' where p: "process_submission sample_core sample_store sub_mixed =
        (Inr (current_rollouts 1 (rollout_data sub_mixed)), sample_store\<lparr>qualities := qs'\<rparr>)"
    and len: "length qs' = length (qualities sample_store)"
    and e: "\<forall>v < length (qualities sample_store). qs' ! v =
        (if v \<noteq> 0 \<and> v \<in> snd ` set (rollout_data sub_mixed)
         then avg_rating (ratings_of_version ([Rating 1 1] @ [Rating (- 1) 1])
                (rollout_data sub_mixed) v)
         else qualities sample_store ! v)"
    by blast
  from e q have "qs' ! 0 = Rating 0 1" by simp
  moreover from e q a have "qs' ! 1 = Rating 1 1" by (simp add: sub_mixed_def)
  ultimately show ?thesis
    using p len c q by auto
qed

text \<open>
  The specification has every submission yield its trajectories of the latest version. In the sample
  submission with a seat of version 2 the first trajectory is of the latest version, 1, and
  the turn yields nothing: it raises on the second record, and the generator ends.
\<close>

theorem yields_latest_version_only_counterexample:
  "current_rollouts 1 (rollout_data sub_missing) = [30] \<and>
   version_latest sample_store = Some 1 \<and>
   process_submission sample_core sample_store sub_missing = (Inl TypeError, sample_store) \<and>
   generate_rollouts sample_core (sample_store\<lparr>rollouts := [sub_missing]\<rparr>) =
     (Raised TypeError, [], sample_store)"
proof -
  have e: "sample_store\<lparr>rollouts := [sub_missing]\<rparr>\<lparr>rollouts := []\<rparr> = sample_store"
    by (simp add: sample_store_def)
  have g: "generate_rollouts sample_core (sample_store\<lparr>rollouts := [sub_missing]\<rparr>) =
     (Raised TypeError, [], sample_store)"
    by (simp add: generate_rollouts_def e process_missing)
  have c: "current_rollouts 1 (rollout_data sub_missing) = [30]"
    by (simp add: current_rollouts_def sub_missing_def)
  have v: "version_latest sample_store = Some 1"
    by (simp add: sample_store_def)
  show ?thesis
    using g c v process_missing by simp
qed

text \<open>
  C1, as the code has it. When the submission at the head of the queue holds a record whose
  version has no rating, the generator raises \<^verbatim>\<open>TypeError\<close> for it and ends: nothing is
  yielded, no rating is written, the submission is gone from the queue, and the submissions
  behind it stay in the queue unread.
\<close>

theorem missing_rating_ends_generator:
  assumes "rollouts s = sub # queue"
    and "\<not> resolves (qualities s) (rollout_data sub)"
  shows "generate_rollouts core s = (Raised TypeError, [], s\<lparr>rollouts := queue\<rparr>)"
proof -
  have "\<not> resolves (qualities (s\<lparr>rollouts := queue\<rparr>)) (rollout_data sub)"
    using assms(2) by simp
  from writeback_map_unresolved [OF this]
  have "process_submission core (s\<lparr>rollouts := queue\<rparr>) sub = (Inl TypeError, s\<lparr>rollouts := queue\<rparr>)"
    by (simp add: process_submission_def)
  then show ?thesis
    using assms(1) by (simp add: generate_rollouts_def)
qed

theorem missing_rating_ends_generator_witness:
  "\<not> resolves (qualities (sample_store\<lparr>rollouts := [sub_missing, sub_mixed]\<rparr>))
       (rollout_data sub_missing) \<and>
   generate_rollouts sample_core (sample_store\<lparr>rollouts := [sub_missing, sub_mixed]\<rparr>) =
     (Raised TypeError, [], sample_store\<lparr>rollouts := [sub_mixed]\<rparr>)"
proof -
  have r: "rollouts (sample_store\<lparr>rollouts := [sub_missing, sub_mixed]\<rparr>) = sub_missing # [sub_mixed]"
    by simp
  have n: "\<not> resolves (qualities (sample_store\<lparr>rollouts := [sub_missing, sub_mixed]\<rparr>))
       (rollout_data sub_missing)"
    by (simp add: resolves_def sample_store_def sub_missing_def)
  from missing_rating_ends_generator [OF r n, of sample_core] n show ?thesis by simp
qed

text \<open>
  The specification has every version resolve, and the generator drop a submission whose versions do
  not and go on with the next. Two calls of \<^verbatim>\<open>update_parameters\<close> on a cleared store
  publish version 1 and store a single rating, so a record of the latest version does not
  resolve; and on the sample store the generator, given the submission with the unrated
  version and then one that alone would yield a trajectory, ends with the error and leaves
  the second in the queue.
\<close>

theorem missing_rating_dropped_counterexample:
  "version_latest (snd (snd (update_many 2
       \<lparr>n_updates = 0, save_every = 10, gen_logger = None\<rparr> ''m''
       (empty_store :: nat store)))) = Some 1 \<and>
   \<not> resolves (qualities (snd (snd (update_many 2
       \<lparr>n_updates = 0, save_every = 10, gen_logger = None\<rparr> ''m''
       (empty_store :: nat store))))) [(10 :: nat, 1)] \<and>
   generate_rollouts sample_core (sample_store\<lparr>rollouts := [sub_missing, sub_mixed]\<rparr>) =
     (Raised TypeError, [], sample_store\<lparr>rollouts := [sub_mixed]\<rparr>) \<and>
   fst (process_submission sample_core sample_store sub_mixed) = Inr [10]"
proof -
  have u: "update_many 2 \<lparr>n_updates = 0, save_every = 10, gen_logger = None\<rparr> ''m''
       (empty_store :: nat store) =
     (None, \<lparr>n_updates = 2, save_every = 10, gen_logger = None\<rparr>,
      \<lparr>qualities = [Rating_default_sigma 0], model_latest = Some ''m'', rollouts = [],
       version_latest = Some 1, opponent_models = [''m''], worker_ids = []\<rparr>)"
    by (simp add: numeral_2_eq_2 update_parameters_def add_opponent_def Let_def empty_store_def)
  have s: "sample_store\<lparr>rollouts := [sub_mixed]\<rparr>\<lparr>rollouts := [sub_mixed]\<rparr> =
      sample_store\<lparr>rollouts := [sub_mixed]\<rparr>"
    by simp
  have p: "process_submission sample_core (sample_store\<lparr>rollouts := [sub_mixed]\<rparr>) sub_missing =
      (Inl TypeError, sample_store\<lparr>rollouts := [sub_mixed]\<rparr>)"
    by (simp add: process_submission_def writeback_map_def sample_store_def sub_missing_def
        unserialize_def blue_players_def lindex_def)
  have g: "generate_rollouts sample_core (sample_store\<lparr>rollouts := [sub_missing, sub_mixed]\<rparr>) =
     (Raised TypeError, [], sample_store\<lparr>rollouts := [sub_mixed]\<rparr>)"
    by (simp add: generate_rollouts_def p)
  show ?thesis
    by (simp add: u g process_mixed resolves_def)
qed

section \<open>The sign of the result\<close>

lemma sample_core_rank_order_only: "rank_order_only sample_core"
  unfolding rank_order_only_def
proof (intro allI impI)
  fix groups :: "rating list list" and a b c d :: int
  assume o: "(a < b \<longleftrightarrow> c < d) \<and> (a = b \<longleftrightarrow> c = d)"
  then have "sgn (b - a) = sgn (d - c)" and "sgn (a - b) = sgn (c - d)"
    by (auto simp: sgn_if)
  then show "sample_core groups [a, b] = sample_core groups [c, d]"
    by (cases "(groups, [a, b])" rule: sample_core.cases) auto
qed

text \<open>
  Without any assumption on the library: a negative result is passed on as the ranks
  \<open>(0, 1)\<close> of orange and blue, whatever its size.
\<close>

lemma update_ratings_negative:
  "result < 0 \<Longrightarrow>
   update_ratings core blue orange result =
     bind_err (bind_err (rate core [orange, blue] (Some [0, 1])) unpack2)
       (\<lambda>(r2, r1). Inr (r1, r2))"
  by (simp add: update_ratings_def rate_def)

text \<open>
  C3. A result that is not negative rates blue at rank 0 and orange at the rank
  \<^verbatim>\<open>result\<close>. A negative one passes orange first, which the default ranks rate at 0, and
  blue second; for a rating library that reads the ranks only for their order, that is the
  update of a result that is not negative applied to orange, blue and \<^verbatim>\<open>-result\<close>, with the
  two teams' new ratings handed back in the order blue, orange.
\<close>

theorem rating_update_sign_symmetric:
  assumes "rank_order_only core"
  shows "(0 \<le> result \<longrightarrow>
            update_ratings core blue orange result =
              bind_err (rate core [blue, orange] (Some [0, result])) unpack2) \<and>
         (result < 0 \<longrightarrow>
            update_ratings core blue orange result =
              bind_err (bind_err (rate core [orange, blue] (Some [0, 1])) unpack2)
                (\<lambda>(r2, r1). Inr (r1, r2))) \<and>
         (result < 0 \<longrightarrow>
            update_ratings core blue orange result =
              bind_err (update_ratings core orange blue (- result))
                (\<lambda>(r2, r1). Inr (r1, r2)))"
proof (intro conjI impI)
  assume "0 \<le> result"
  then show "update_ratings core blue orange result =
      bind_err (rate core [blue, orange] (Some [0, result])) unpack2"
    by (simp add: update_ratings_def)
next
  assume "result < 0"
  then show "update_ratings core blue orange result =
      bind_err (bind_err (rate core [orange, blue] (Some [0, 1])) unpack2)
        (\<lambda>(r2, r1). Inr (r1, r2))"
    by (rule update_ratings_negative)
next
  assume neg: "result < 0"
  then have "(0 < (1::int) \<longleftrightarrow> 0 < - result) \<and> (0 = (1::int) \<longleftrightarrow> 0 = - result)"
    by simp
  with assms have "core [orange, blue] [0, 1] = core [orange, blue] [0, - result]"
    unfolding rank_order_only_def by blast
  then have "rate core [orange, blue] (Some [0, 1]) = rate core [orange, blue] (Some [0, - result])"
    by (simp add: rate_def)
  moreover from neg have "update_ratings core orange blue (- result) =
      bind_err (rate core [orange, blue] (Some [0, - result])) unpack2"
    by (simp add: update_ratings_def)
  ultimately show "update_ratings core blue orange result =
      bind_err (update_ratings core orange blue (- result)) (\<lambda>(r2, r1). Inr (r1, r2))"
    using update_ratings_negative [OF neg, of core blue orange] by simp
qed

text \<open>Blue loses by three: each blue rating loses a point and each orange one gains one.\<close>

theorem rating_update_sign_symmetric_witness:
  "update_ratings sample_core [Rating 0 1] [Rating 5 1] (- 3) =
     Inr ([Rating (- 1) 1], [Rating 6 1]) \<and>
   bind_err (update_ratings sample_core [Rating 5 1] [Rating 0 1] 3)
     (\<lambda>(r2, r1). Inr (r1, r2)) = Inr ([Rating (- 1) 1], [Rating 6 1])"
proof -
  have "update_ratings sample_core [Rating 5 1] [Rating 0 1] 3 =
      Inr ([Rating 6 1], [Rating (- 1) 1])"
    by (simp add: update_ratings_def rate_def gain_def Rating_def)
  moreover from rating_update_sign_symmetric [OF sample_core_rank_order_only,
      of "- 3" "[Rating 0 1]" "[Rating 5 1]"]
  have "(- 3 :: int) < 0 \<longrightarrow>
      update_ratings sample_core [Rating 0 1] [Rating 5 1] (- 3) =
      bind_err (update_ratings sample_core [Rating 5 1] [Rating 0 1] (- (- 3)))
        (\<lambda>(r2, r1). Inr (r1, r2))"
    by blast
  then have "update_ratings sample_core [Rating 0 1] [Rating 5 1] (- 3) =
      bind_err (update_ratings sample_core [Rating 5 1] [Rating 0 1] 3)
        (\<lambda>(r2, r1). Inr (r1, r2))"
    by simp
  ultimately show ?thesis by simp
qed

section \<open>The expected number of seats of the current model\<close>




section \<open>Selecting opponents\<close>

lemma cumsum_from_length: "length (cumsum_from a xs) = length xs"
  by (induction xs arbitrary: a) simp_all

lemma cumsum_from_last: "xs \<noteq> [] \<Longrightarrow> last (cumsum_from a xs) = a + sum_list xs"
proof (induction xs arbitrary: a)
  case Nil
  then show ?case by simp
next
  case (Cons x xs)
  show ?case
  proof (cases "xs = []")
    case True
    then show ?thesis by simp
  next
    case False
    then have "cumsum_from (a + x) xs \<noteq> []"
      using cumsum_from_length [of "a + x" xs] by auto
    with Cons.IH [OF False, of "a + x"] show ?thesis by simp
  qed
qed

lemma sum_list_exp_pos: "xs \<noteq> [] \<Longrightarrow> 0 < sum_list (map exp (xs :: real list))"
proof (induction xs)
  case Nil
  then show ?case by simp
next
  case (Cons x xs)
  have "0 \<le> sum_list (map exp xs)"
    by (rule sum_list_nonneg) auto
  moreover have "0 < exp x" by simp
  ultimately have "0 < exp x + sum_list (map exp xs)" by (rule add_pos_nonneg [rotated])
  then show ?case by simp
qed

lemma softmax_length: "length (softmax xs) = length xs"
  by (simp add: softmax_def)

lemma softmax_sum: "xs \<noteq> [] \<Longrightarrow> sum_list (softmax xs) = 1"
proof -
  assume ne: "xs \<noteq> []"
  let ?S = "sum_list (map exp xs)"
  have "sum_list (softmax xs) = (\<Sum>x\<leftarrow>xs. exp x * inverse ?S)"
    by (simp add: softmax_def divide_inverse)
  also have "\<dots> = ?S * inverse ?S"
    by (simp only: sum_list_mult_const)
  also have "\<dots> = 1"
    using sum_list_exp_pos [OF ne] by simp
  finally show ?thesis .
qed

lemma random_choice_in_range:
  assumes "p \<noteq> []" and "sum_list p = 1" and "u < 1"
  shows "\<exists>i. random_choice p u = Inr i \<and> i < length p"
proof -
  let ?cdf = "cumsum_from 0 p"
  have ne: "?cdf \<noteq> []"
    using assms(1) cumsum_from_length [of 0 p] by auto
  have l: "last ?cdf = 1"
    using cumsum_from_last [OF assms(1), of 0] assms(2) by simp
  have "last ?cdf \<in> set ?cdf"
    using ne by simp
  moreover have "\<not> last ?cdf / last ?cdf \<le> u"
    using l assms(3) by simp
  ultimately have "length (filter (\<lambda>c. c / last ?cdf \<le> u) ?cdf) < length ?cdf"
    by (rule length_filter_less)
  then show ?thesis
    using assms(1) by (simp add: random_choice_def cumsum_from_length)
qed

lemma get_opponent_index_empty: "get_opponent_index [] u = Inl ValueError"
  by (simp add: get_opponent_index_def softmax_def random_choice_def)

lemma get_opponent_index_in_range:
  assumes "qs \<noteq> []" and "u < 1"
  shows "\<exists>index prob. get_opponent_index qs u = Inr (index, prob) \<and> index < length qs"
proof -
  let ?p = "softmax (map (\<lambda>r. mu r / ln 10) qs)"
  have ne: "?p \<noteq> []"
    using assms(1) softmax_length [of "map (\<lambda>r. mu r / ln 10) qs"] by auto
  have "sum_list ?p = 1"
    using assms(1) by (simp add: softmax_sum)
  from random_choice_in_range [OF ne this assms(2)]
  obtain i where "random_choice ?p u = Inr i" and "i < length ?p"
    by blast
  then show ?thesis
    by (simp add: get_opponent_index_def softmax_length)
qed

lemma extra_seats_all_current:
  "\<forall>d \<in> set draws. fst d < adj \<Longrightarrow>
   extra_seats w s latest adj draws =
     Inr (replicate (length draws) (current_agent w, latest, current_version_prob w))"
proof (induction draws)
  case Nil
  show ?case by simp
next
  case (Cons d draws)
  obtain u u' where d: "d = (u, u')" by (cases d)
  with Cons show ?case by simp
qed

lemma extra_seats_empty_pool:
  "qualities s = [] \<Longrightarrow> \<exists>d \<in> set draws. \<not> fst d < adj \<Longrightarrow>
   extra_seats w s latest adj draws = Inl ValueError"
proof (induction draws)
  case Nil
  then show ?case by simp
next
  case (Cons d draws)
  obtain u u' where d: "d = (u, u')" by (cases d)
  show ?case
  proof (cases "u < adj")
    case True
    with Cons.prems d have "\<exists>d \<in> set draws. \<not> fst d < adj" by auto
    from Cons.IH [OF Cons.prems(1) this] True d show ?thesis by simp
  next
    case False
    with d Cons.prems(1) show ?thesis by (simp add: get_opponent_index_empty)
  qed
qed

lemma select_agents_all_current:
  assumes "\<forall>i < n_agents w - 1. fst (rnd i) < adjusted_prob (current_version_prob w) (n_agents w)"
  shows "select_agents w s latest rnd =
     Inr (replicate (max 1 (n_agents w)) (current_agent w, latest, current_version_prob w))"
proof (cases "1 < n_agents w")
  case True
  let ?adj = "adjusted_prob (current_version_prob w) (n_agents w)"
  have "\<forall>d \<in> set (map rnd [0..<n_agents w - 1]). fst d < ?adj"
    using assms by auto
  from extra_seats_all_current [OF this, of w s latest] True
  have "select_agents w s latest rnd =
      Inr ((current_agent w, latest, current_version_prob w) #
           replicate (n_agents w - 1) (current_agent w, latest, current_version_prob w))"
    by (simp add: select_agents_def)
  moreover from True have "max 1 (n_agents w) = Suc (n_agents w - 1)" by simp
  ultimately show ?thesis by (simp only: replicate_Suc)
next
  case False
  then have "max 1 (n_agents w) = 1" by simp
  with False show ?thesis by (simp add: select_agents_def)
qed

lemma select_agents_empty_pool:
  assumes "qualities s = []" and "1 < n_agents w"
    and "\<exists>i < n_agents w - 1. \<not> fst (rnd i) < adjusted_prob (current_version_prob w) (n_agents w)"
  shows "select_agents w s latest rnd = Inl ValueError"
proof -
  let ?adj = "adjusted_prob (current_version_prob w) (n_agents w)"
  from assms(3) have "\<exists>d \<in> set (map rnd [0..<n_agents w - 1]). \<not> fst d < ?adj"
    by auto
  from extra_seats_empty_pool [OF assms(1) this, of w latest] assms(2)
  show ?thesis by (simp add: select_agents_def)
qed

lemma select_agents_empty_pool_iff:
  assumes "qualities s = []" and "1 < n_agents w"
  shows "(select_agents w s latest rnd = Inl ValueError) =
     (\<exists>i < n_agents w - 1.
        \<not> fst (rnd i) < adjusted_prob (current_version_prob w) (n_agents w))"
proof
  assume r: "select_agents w s latest rnd = Inl ValueError"
  show "\<exists>i < n_agents w - 1.
        \<not> fst (rnd i) < adjusted_prob (current_version_prob w) (n_agents w)"
  proof (rule ccontr)
    assume "\<not> (\<exists>i < n_agents w - 1.
        \<not> fst (rnd i) < adjusted_prob (current_version_prob w) (n_agents w))"
    then have "\<forall>i < n_agents w - 1.
        fst (rnd i) < adjusted_prob (current_version_prob w) (n_agents w)"
      by blast
    from select_agents_all_current [OF this, of s latest] r show False by simp
  qed
next
  assume "\<exists>i < n_agents w - 1.
        \<not> fst (rnd i) < adjusted_prob (current_version_prob w) (n_agents w)"
  with assms show "select_agents w s latest rnd = Inl ValueError"
    by (rule select_agents_empty_pool)
qed

text \<open>
  C9, as the code has it. On an empty rating list \<^verbatim>\<open>_get_opponent_index\<close> raises
  \<^verbatim>\<open>ValueError\<close>, and the selection of a worker with several seats raises it exactly when
  some draw does not give its seat the current model. On any store, when every draw gives
  its seat the current model the selection returns the current model in every seat, and the
  pool is not read. On a rating list that is not empty, with the draw inside
  \<^verbatim>\<open>np.random.choice\<close> below 1, the index selected is in range of the rating list.
\<close>

theorem opponent_index_in_range:
  "get_opponent_index [] u = Inl ValueError \<and>
   (qualities s = [] \<longrightarrow> 1 < n_agents w \<longrightarrow>
      (select_agents w s latest rnd = Inl ValueError) =
        (\<exists>i < n_agents w - 1.
            \<not> fst (rnd i) < adjusted_prob (current_version_prob w) (n_agents w))) \<and>
   ((\<forall>i < n_agents w - 1.
        fst (rnd i) < adjusted_prob (current_version_prob w) (n_agents w)) \<longrightarrow>
      select_agents w s latest rnd =
        Inr (replicate (max 1 (n_agents w)) (current_agent w, latest, current_version_prob w))) \<and>
   (qs \<noteq> [] \<longrightarrow> u < 1 \<longrightarrow>
      (\<exists>index prob. get_opponent_index qs u = Inr (index, prob) \<and> index < length qs))"
  using get_opponent_index_empty select_agents_empty_pool_iff select_agents_all_current
    get_opponent_index_in_range
  by blast

lemma sample_adjusted_prob: "adjusted_prob (9 / 10) 2 = 4 / 5"
  by (simp add: adjusted_prob_def)

text \<open>
  On the store with the model published and no rating yet, the worker with two seats fails
  on the draw 0.95 and plays the current model in both seats on the draw 0.5; on two equal
  ratings the index is in range.
\<close>

theorem opponent_index_in_range_witness:
  "select_agents sample_worker unrated_store 0 (\<lambda>i. (19 / 20, 1 / 2)) = Inl ValueError \<and>
   select_agents sample_worker unrated_store 0 (\<lambda>i. (1 / 2, 1 / 2)) =
     Inr [(''m'', 0, 9 / 10), (''m'', 0, 9 / 10)] \<and>
   (\<exists>index prob. get_opponent_index [Rating 0 1, Rating 0 1] (1 / 2) = Inr (index, prob) \<and>
      index < length [Rating 0 1, Rating 0 1])"
proof -
  have q: "qualities unrated_store = []"
    by (simp add: unrated_store_def empty_store_def)
  have n: "1 < n_agents sample_worker"
    by (simp add: sample_worker_def)
  have a: "adjusted_prob (current_version_prob sample_worker) (n_agents sample_worker) = 4 / 5"
    using sample_adjusted_prob by (simp add: sample_worker_def)
  have hi: "\<exists>i < n_agents sample_worker - 1. \<not> fst ((\<lambda>i. (19 / 20 :: real, 1 / 2 :: real)) i) <
      adjusted_prob (current_version_prob sample_worker) (n_agents sample_worker)"
    by (simp add: a) (simp add: sample_worker_def)
  have lo: "\<forall>i < n_agents sample_worker - 1. fst ((\<lambda>i. (1 / 2 :: real, 1 / 2 :: real)) i) <
      adjusted_prob (current_version_prob sample_worker) (n_agents sample_worker)"
    by (simp add: a)
  have ne: "[Rating 0 1, Rating 0 1] \<noteq> []" by simp
  have u: "(1 / 2 :: real) < 1" by simp
  have r: "replicate (max 1 (n_agents sample_worker))
      (current_agent sample_worker, 0 :: nat, current_version_prob sample_worker) =
      [(''m'', 0, 9 / 10), (''m'', 0, 9 / 10)]"
    by (simp add: sample_worker_def numeral_2_eq_2)
  from opponent_index_in_range [of "1 / 2" unrated_store sample_worker 0
      "\<lambda>i. (19 / 20, 1 / 2)" "[Rating 0 1, Rating 0 1]"] q n hi
  have 1: "select_agents sample_worker unrated_store 0 (\<lambda>i. (19 / 20, 1 / 2)) = Inl ValueError"
    by blast
  from opponent_index_in_range [of "1 / 2" unrated_store sample_worker 0
      "\<lambda>i. (1 / 2, 1 / 2)" "[Rating 0 1, Rating 0 1]"] lo
  have "select_agents sample_worker unrated_store 0 (\<lambda>i. (1 / 2, 1 / 2)) =
      Inr (replicate (max 1 (n_agents sample_worker))
        (current_agent sample_worker, 0, current_version_prob sample_worker))"
    by blast
  then have 2: "select_agents sample_worker unrated_store 0 (\<lambda>i. (1 / 2, 1 / 2)) =
     Inr [(''m'', 0, 9 / 10), (''m'', 0, 9 / 10)]"
    by (simp only: r)
  from opponent_index_in_range [of "1 / 2" unrated_store sample_worker 0
      "\<lambda>i. (1 / 2, 1 / 2)" "[Rating 0 1, Rating 0 1]"] ne u
  have 3: "\<exists>index prob. get_opponent_index [Rating 0 1, Rating 0 1] (1 / 2) = Inr (index, prob) \<and>
      index < length [Rating 0 1, Rating 0 1]"
    by blast
  from 1 2 3 show ?thesis by blast
qed

text \<open>
  The specification has the selection fall back to self-play on an empty pool. On the store
  as the first \<^verbatim>\<open>update_parameters\<close> leaves it after publishing the model and the version
  and before pushing the first opponent, the selection raises, and so does the turn of a
  worker with two seats whose draw, 0.95, is not below the adjusted probability, 0.8.
\<close>

theorem empty_pool_fallback_counterexample:
  "qualities unrated_store = [] \<and> opponent_models unrated_store = [] \<and>
   get_opponent_index (qualities unrated_store) (1 / 2) = Inl ValueError \<and>
   run_turn id (\<lambda>agents. ([], 0)) (\<lambda>i. (19 / 20, 1 / 2)) sample_worker unrated_store =
     Failed ValueError"
proof -
  have q: "qualities unrated_store = []" and o: "opponent_models unrated_store = []"
    and m: "model_latest unrated_store = Some ''m''" and v: "version_latest unrated_store = Some 0"
    by (simp_all add: unrated_store_def empty_store_def)
  let ?w = "sample_worker\<lparr>current_agent := ''m''\<rparr>"
  have "select_agents ?w unrated_store 0 (\<lambda>i. (19 / 20, 1 / 2)) = Inl ValueError"
    by (rule select_agents_empty_pool)
       (simp_all add: q sample_worker_def sample_adjusted_prob)
  then have "run_turn id (\<lambda>agents. ([], 0)) (\<lambda>i. (19 / 20, 1 / 2)) sample_worker unrated_store =
     Failed ValueError"
    by (simp add: run_turn_def m v unserialize_def)
  with q o get_opponent_index_empty show ?thesis by simp
qed

section \<open>The seats a turn selects\<close>



section \<open>The seats of the latest version\<close>












end
